theory Spec2Isabelle
  imports Main "HOL-Library.Word" "HOL-Library.AList"
begin

section \<open>Socket\_Zoom relay server: shallow embedding of \<^verbatim>\<open>src/server.py\<close>\<close>

text \<open>
  The development follows \<^verbatim>\<open>LANCommServer\<close>. Python values are modelled as follows.
  \<^item> \<^verbatim>\<open>bytes\<close> is a list of 8-bit words, \<^verbatim>\<open>str\<close> is \<open>string\<close>.
  \<^item> The result of \<^verbatim>\<open>json.loads\<close> is a value of the datatype \<open>json\<close>; floats are not
    modelled, so a JSON number is an \<open>int\<close>.
  \<^item> A Python \<^verbatim>\<open>dict\<close> keeps insertion order; it is an association list with distinct keys,
    read with \<open>map_of\<close>, written with \<open>AList.update\<close> (in place for a key that exists,
    appended otherwise) and \<open>AList.delete\<close>.
  \<^item> Library functions whose result depends on Unicode tables or on the host
    (\<^verbatim>\<open>str.lower\<close>, \<^verbatim>\<open>str.strip\<close>, \<^verbatim>\<open>bytes.decode\<close>, \<^verbatim>\<open>json.loads\<close>, \<^verbatim>\<open>json.dumps\<close>,
    \<^verbatim>\<open>sys.byteorder\<close>, \<^verbatim>\<open>datetime.now\<close>, and whether \<^verbatim>\<open>sys.stdout\<close> can encode a text that
    \<^verbatim>\<open>print\<close> writes) are parameters of the functions that call them.
  \<^item> A raised exception is a value \<open>Inl\<close>; a socket write is an entry of the list of
    sends that a function returns.
  \<^item> The name of a client is a string. The server takes any JSON value that a \<^verbatim>\<open>register\<close>
    message carries as \<^verbatim>\<open>username\<close>; a registration under a value that is not a string is
    outside this development.
\<close>

subsection \<open>Bytes and \<^verbatim>\<open>struct.pack('I', n)\<close>\<close>

type_synonym byte = "8 word"
type_synonym bytes = "byte list"

text \<open>\<^verbatim>\<open>sys.byteorder\<close>: format \<^verbatim>\<open>'I'\<close> has no prefix, so \<^verbatim>\<open>struct\<close> uses the host's order.\<close>

datatype byteorder = Little | Big

definition le_bytes :: "nat \<Rightarrow> bytes" where
  "le_bytes n =
     [of_nat (n mod 256), of_nat (n div 256 mod 256),
      of_nat (n div 65536 mod 256), of_nat (n div 16777216 mod 256)]"

text \<open>\<^verbatim>\<open>struct.pack('I', n)\<close>; \<open>None\<close> is \<^verbatim>\<open>struct.error\<close> (argument out of range).\<close>

definition pack_I :: "byteorder \<Rightarrow> nat \<Rightarrow> bytes option" where
  "pack_I bo n =
     (if n < 2 ^ 32
      then Some (case bo of Little \<Rightarrow> le_bytes n | Big \<Rightarrow> rev (le_bytes n))
      else None)"

fun le_value :: "bytes \<Rightarrow> nat option" where
  "le_value [b0, b1, b2, b3] =
     Some (unat b0 + 256 * unat b1 + 65536 * unat b2 + 16777216 * unat b3)"
| "le_value _ = None"

text \<open>\<^verbatim>\<open>struct.unpack('I', b)[0]\<close>; \<open>None\<close> is \<^verbatim>\<open>struct.error\<close> (\<open>b\<close> is not 4 bytes long).\<close>

definition unpack_I :: "byteorder \<Rightarrow> bytes \<Rightarrow> nat option" where
  "unpack_I bo b = (case bo of Little \<Rightarrow> le_value b | Big \<Rightarrow> le_value (rev b))"

subsection \<open>Frame codec: \<^verbatim>\<open>send_message\<close>, \<^verbatim>\<open>recv_exact\<close>, \<^verbatim>\<open>recv_message\<close>\<close>

text \<open>
  The bytes \<^verbatim>\<open>struct.pack('I', len(data)) + data\<close> that \<^verbatim>\<open>send_message\<close> hands to
  \<^verbatim>\<open>sock.sendall\<close> for the payload \<open>data\<close>. \<open>None\<close>: \<^verbatim>\<open>struct.pack\<close> raised.
\<close>

definition encode_frame :: "byteorder \<Rightarrow> bytes \<Rightarrow> bytes option" where
  "encode_frame bo data =
     (case pack_I bo (length data) of
        None \<Rightarrow> None
      | Some len \<Rightarrow> Some (len @ data))"

text \<open>
  The receiving side of a TCP connection: \<open>pending\<close> are the bytes that arrive before the peer
  closes, \<open>sizes\<close> says how many of them each successive \<^verbatim>\<open>recv\<close> call has available (the
  segmentation of the network; when the list is used up a call gets all it asks for).
\<close>

record sock_in =
  pending :: bytes
  sizes :: "nat list"

text \<open>\<^verbatim>\<open>sock.recv(bufsize)\<close>: at least one byte and at most \<open>bufsize\<close>, or \<^verbatim>\<open>b''\<close> once the
  peer has closed.\<close>

definition recv :: "nat \<Rightarrow> sock_in \<Rightarrow> bytes \<times> sock_in" where
  "recv bufsize s =
     (if pending s = [] then ([], s)
      else
        let k = (case sizes s of [] \<Rightarrow> bufsize | c # _ \<Rightarrow> min bufsize (max 1 c))
        in (take k (pending s), s\<lparr>pending := drop k (pending s), sizes := tl (sizes s)\<rparr>))"

text \<open>The \<^verbatim>\<open>while len(data) < n\<close> loop of \<^verbatim>\<open>recv_exact\<close>.\<close>

function recv_exact_loop :: "sock_in \<Rightarrow> nat \<Rightarrow> bytes \<Rightarrow> bytes option \<times> sock_in" where
  "recv_exact_loop s n data =
     (if length data < n then
        (case recv (n - length data) s of
           (packet, s') \<Rightarrow>
             if packet = [] then (None, s')
             else recv_exact_loop s' n (data @ packet))
      else (Some data, s))"
  by pat_completeness auto
termination
  by (relation "measure (\<lambda>(s, n, data). n - length data)")
    (auto simp: neq_Nil_conv)

definition recv_exact :: "sock_in \<Rightarrow> nat \<Rightarrow> bytes option \<times> sock_in" where
  "recv_exact s n = recv_exact_loop s n []"

subsection \<open>JSON values\<close>

text \<open>What \<^verbatim>\<open>json.loads\<close> returns. \<open>JObj\<close> holds a \<^verbatim>\<open>dict\<close> with \<^verbatim>\<open>str\<close> keys.\<close>

datatype json =
    JNull
  | JBool bool
  | JInt int
  | JStr string
  | JArr "json list"
  | JObj "(string \<times> json) list"

text \<open>Python's truth value of an object, as \<^verbatim>\<open>if x\<close>, \<^verbatim>\<open>not x\<close> and \<^verbatim>\<open>x or y\<close> take it.\<close>

fun truthy :: "json \<Rightarrow> bool" where
  "truthy JNull = False"
| "truthy (JBool b) = b"
| "truthy (JInt i) = (i \<noteq> 0)"
| "truthy (JStr s) = (s \<noteq> [])"
| "truthy (JArr xs) = (xs \<noteq> [])"
| "truthy (JObj kvs) = (kvs \<noteq> [])"

text \<open>The exceptions that the handlers of control messages raise. \<^verbatim>\<open>UnicodeEncodeError\<close> is
  what \<^verbatim>\<open>print\<close> raises for a text that \<^verbatim>\<open>sys.stdout\<close> cannot encode.\<close>

datatype error = KeyError | TypeError | AttributeError | UnicodeEncodeError

text \<open>\<^verbatim>\<open>tuple(x)\<close>: the elements of a list, the characters of a string, the keys of a dict;
  \<^verbatim>\<open>TypeError\<close> for an object that is not iterable.\<close>

fun py_tuple :: "json \<Rightarrow> error + json list" where
  "py_tuple (JArr xs) = Inr xs"
| "py_tuple (JStr s) = Inr (map (\<lambda>c. JStr [c]) s)"
| "py_tuple (JObj kvs) = Inr (map (\<lambda>kv. JStr (fst kv)) kvs)"
| "py_tuple _ = Inl TypeError"

text \<open>Lists and dicts cannot be keys of a dict (\<^verbatim>\<open>TypeError: unhashable type\<close>).\<close>

fun hashable :: "json \<Rightarrow> bool" where
  "hashable (JArr xs) = False"
| "hashable (JObj kvs) = False"
| "hashable _ = True"

text \<open>As keys of a dict \<^verbatim>\<open>True\<close> and \<^verbatim>\<open>1\<close> are one key, and so are \<^verbatim>\<open>False\<close> and \<^verbatim>\<open>0\<close>.\<close>

fun dict_key :: "json \<Rightarrow> json" where
  "dict_key (JBool b) = JInt (if b then 1 else 0)"
| "dict_key j = j"

subsection \<open>\<^verbatim>\<open>datetime.now().strftime\<close>\<close>

record datetime =
  year :: nat
  month :: nat
  day :: nat
  hour :: nat
  minute :: nat
  second :: nat

definition digit_char :: "nat \<Rightarrow> char" where
  "digit_char d = ''0123456789'' ! (d mod 10)"

definition pad2 :: "nat \<Rightarrow> string" where
  "pad2 n = [digit_char (n div 10), digit_char n]"

definition pad4 :: "nat \<Rightarrow> string" where
  "pad4 n = [digit_char (n div 1000), digit_char (n div 100), digit_char (n div 10), digit_char n]"

text \<open>\<^verbatim>\<open>strftime('%H:%M:%S')\<close>\<close>

definition strftime_HMS :: "datetime \<Rightarrow> string" where
  "strftime_HMS t = pad2 (hour t) @ '':'' @ pad2 (minute t) @ '':'' @ pad2 (second t)"

text \<open>\<^verbatim>\<open>strftime('%Y-%m-%d %H:%M:%S')\<close>\<close>

definition strftime_Ymd_HMS :: "datetime \<Rightarrow> string" where
  "strftime_Ymd_HMS t =
     pad4 (year t) @ ''-'' @ pad2 (month t) @ ''-'' @ pad2 (day t) @ '' '' @ strftime_HMS t"






subsection \<open>\<^verbatim>\<open>send_message\<close> and \<^verbatim>\<open>recv_message\<close>\<close>

text \<open>
  \<^verbatim>\<open>send_message\<close>: the bytes written to the socket, or \<open>None\<close> when an exception was caught,
  nothing was written and \<^verbatim>\<open>False\<close> was returned. \<open>dumps\<close> is
  \<^verbatim>\<open>json.dumps(message).encode('utf-8')\<close>, \<open>None\<close> when it raises. A \<^verbatim>\<open>sendall\<close> that raises is
  caught in the same way; the result is what was handed to \<^verbatim>\<open>sendall\<close>.
\<close>

definition send_message :: "byteorder \<Rightarrow> (json \<Rightarrow> bytes option) \<Rightarrow> json \<Rightarrow> bytes option" where
  "send_message bo dumps message =
     (case dumps message of
        None \<Rightarrow> None
      | Some data \<Rightarrow> encode_frame bo data)"

text \<open>
  \<^verbatim>\<open>recv_message\<close>: the value returned, with the socket after the call. \<open>decode\<close> is
  \<^verbatim>\<open>bytes.decode('utf-8')\<close> and \<open>loads\<close> is \<^verbatim>\<open>json.loads\<close>, each \<open>None\<close> when it raises, which the
  \<^verbatim>\<open>except\<close> clause turns into the result \<^verbatim>\<open>None\<close>. \<^verbatim>\<open>not length_data\<close> and \<^verbatim>\<open>not data\<close> hold
  for \<^verbatim>\<open>None\<close> and for \<^verbatim>\<open>b''\<close>. The result \<open>None\<close> is Python's \<^verbatim>\<open>None\<close>, which is also what
  \<^verbatim>\<open>json.loads\<close> returns for the text \<^verbatim>\<open>null\<close>.
\<close>

definition recv_message :: "byteorder \<Rightarrow> (bytes \<Rightarrow> string option) \<Rightarrow> (string \<Rightarrow> json option)
    \<Rightarrow> sock_in \<Rightarrow> json option \<times> sock_in" where
  "recv_message bo decode loads s =
     (case recv_exact s 4 of
        (None, s1) \<Rightarrow> (None, s1)
      | (Some length_data, s1) \<Rightarrow>
          if length_data = [] then (None, s1)
          else
            (case unpack_I bo length_data of
               None \<Rightarrow> (None, s1)
             | Some len \<Rightarrow>
                 (case recv_exact s1 len of
                    (None, s2) \<Rightarrow> (None, s2)
                  | (Some data, s2) \<Rightarrow>
                      if data = [] then (None, s2)
                      else
                        (case decode data of
                           None \<Rightarrow> (None, s2)
                         | Some text \<Rightarrow>
                             (case loads text of
                                None \<Rightarrow> (None, s2)
                              | Some v \<Rightarrow> if v = JNull then (None, s2) else (Some v, s2))))))"

subsection \<open>Server state\<close>

text \<open>
  A socket is named by a number. A write of \<^verbatim>\<open>send_message(sock, message)\<close> is recorded as
  the pair of the socket and the message; its bytes on the wire are
  \<open>encode_frame\<close> of \<^verbatim>\<open>json.dumps(message)\<close>. \<^verbatim>\<open>send_message\<close> catches every exception of
  the write, so a failed write never stops the caller.
\<close>

type_synonym sock = nat
type_synonym send = "sock \<times> json"

text \<open>An entry of \<^verbatim>\<open>self.clients\<close>. An endpoint is \<^verbatim>\<open>None\<close> or the tuple made from the
  \<^verbatim>\<open>address\<close> field of a registration message.\<close>

record client_info =
  tcp_socket :: sock
  address :: "string \<times> nat"
  video_addr :: "json list option"
  audio_addr :: "json list option"

text \<open>An entry of \<^verbatim>\<open>self.shared_files\<close>.\<close>

record file_info =
  filename :: json
  fsize :: json
  fdata :: json
  uploader :: string
  ftimestamp :: string

record server =
  clients :: "(string \<times> client_info) list"
  presenter :: "string option"
  shared_files :: "(json \<times> file_info) list"

text \<open>
  \<^verbatim>\<open>str.lower\<close> and \<^verbatim>\<open>str.strip\<close>, and \<open>printable v\<close>: \<^verbatim>\<open>sys.stdout\<close> can encode the text that
  an f-string makes of the value \<open>v\<close>. \<^verbatim>\<open>print\<close> of an f-string whose other parts are ASCII
  returns when every value in it is printable, and raises \<^verbatim>\<open>UnicodeEncodeError\<close> otherwise
  (a lone surrogate, which \<^verbatim>\<open>json.loads\<close> accepts, is never printable).
\<close>

record pylib =
  str_lower :: "string \<Rightarrow> string"
  str_strip :: "string \<Rightarrow> string"
  printable :: "json \<Rightarrow> bool"

text \<open>The clock of one call: \<open>clock i\<close> is what the \<open>i\<close>-th call of \<^verbatim>\<open>datetime.now()\<close>
  returns, counted from 0.\<close>

type_synonym clock = "nat \<Rightarrow> datetime"

definition broadcast_message :: "server \<Rightarrow> json \<Rightarrow> string option \<Rightarrow> send list" where
  "broadcast_message s message exclude =
     map (\<lambda>(username, client_info). (tcp_socket client_info, message))
       (filter (\<lambda>(username, client_info). Some username \<noteq> exclude) (clients s))"

definition send_to_user :: "server \<Rightarrow> string \<Rightarrow> json \<Rightarrow> send list" where
  "send_to_user s username message =
     (case map_of (clients s) username of
        Some client_info \<Rightarrow> [(tcp_socket client_info, message)]
      | None \<Rightarrow> [])"

text \<open>
  A handler thread knows its connection by the locals \<^verbatim>\<open>client_socket\<close> and \<^verbatim>\<open>username\<close>, and
  the server answers it through \<^verbatim>\<open>send_to_user(username, ...)\<close>, that is on the socket that the
  registry holds for the name. The two are the same socket as long as no later registration
  under the same name has replaced the entry.
\<close>

definition registered_on :: "server \<Rightarrow> string \<Rightarrow> sock \<Rightarrow> bool" where
  "registered_on s username client_socket =
     (case map_of (clients s) username of
        None \<Rightarrow> False
      | Some client_info \<Rightarrow> tcp_socket client_info = client_socket)"

text \<open>\<^verbatim>\<open>list(self.clients.keys())\<close>\<close>

definition users :: "server \<Rightarrow> json" where
  "users s = JArr (map (\<lambda>kv. JStr (fst kv)) (clients s))"

subsection \<open>The messages the server sends\<close>

definition chat_frame :: "string \<Rightarrow> json \<Rightarrow> string \<Rightarrow> json" where
  "chat_frame username message ts =
     JObj [(''type'', JStr ''chat''), (''username'', JStr username),
           (''message'', message), (''timestamp'', JStr ts)]"

definition presentation_started :: "string \<Rightarrow> json" where
  "presentation_started username =
     JObj [(''type'', JStr ''presentation_started''), (''username'', JStr username)]"

definition presentation_stopped :: "string \<Rightarrow> json" where
  "presentation_stopped username =
     JObj [(''type'', JStr ''presentation_stopped''), (''username'', JStr username)]"

definition presentation_control_started :: json where
  "presentation_control_started =
     JObj [(''type'', JStr ''presentation_control''), (''status'', JStr ''started'')]"

definition presentation_control_denied :: "string \<Rightarrow> json" where
  "presentation_control_denied current =
     JObj [(''type'', JStr ''presentation_control''), (''status'', JStr ''denied''),
           (''message'', JStr (current @ '' is currently presenting''))]"

definition screen_frame :: "string \<Rightarrow> json \<Rightarrow> json" where
  "screen_frame username frame_data =
     JObj [(''type'', JStr ''screen_frame''), (''username'', JStr username),
           (''frame_data'', frame_data)]"

definition private_chat_frame :: "string \<Rightarrow> string \<Rightarrow> json \<Rightarrow> string \<Rightarrow> json" where
  "private_chat_frame from to text ts =
     JObj [(''type'', JStr ''private_chat''), (''from'', JStr from), (''to'', JStr to),
           (''message'', text), (''timestamp'', JStr ts)]"

definition not_online :: "string \<Rightarrow> json" where
  "not_online to_user =
     JObj [(''type'', JStr ''system''),
           (''message'', JStr (''User '' @ [CHR 0x27] @ to_user @ [CHR 0x27] @ '' is not online'')),
           (''level'', JStr ''warning'')]"

definition file_available :: "json \<Rightarrow> json \<Rightarrow> json \<Rightarrow> string \<Rightarrow> json" where
  "file_available file_id name sz username =
     JObj [(''type'', JStr ''file_available''), (''file_id'', file_id), (''filename'', name),
           (''size'', sz), (''uploader'', JStr username)]"

definition file_data :: "json \<Rightarrow> file_info \<Rightarrow> json" where
  "file_data file_id info =
     JObj [(''type'', JStr ''file_data''), (''file_id'', file_id), (''filename'', filename info),
           (''size'', fsize info), (''data'', fdata info)]"

definition welcome_message :: "string \<Rightarrow> json \<Rightarrow> json" where
  "welcome_message username us =
     JObj [(''type'', JStr ''welcome''),
           (''message'', JStr (''Welcome to LAN Communication Server, '' @ username @ ''!'')),
           (''users'', us)]"

definition user_joined :: "string \<Rightarrow> json \<Rightarrow> json" where
  "user_joined username us =
     JObj [(''type'', JStr ''user_joined''), (''username'', JStr username), (''users'', us)]"

definition user_left :: "string \<Rightarrow> json \<Rightarrow> json" where
  "user_left username us =
     JObj [(''type'', JStr ''user_left''), (''username'', JStr username), (''users'', us)]"

subsection \<open>\<^verbatim>\<open>process_message\<close>\<close>

text \<open>
  The result of \<^verbatim>\<open>process_message\<close> is \<open>Inr (s', out)\<close> when the call returns, with the new
  state of the server and the writes made, in order, and \<open>Inl (e, out)\<close> when the call raises
  \<open>e\<close> after the writes \<open>out\<close>. In every branch the expressions that can raise are evaluated
  before the first assignment to the state, so a call that raises has left the state as it
  was. A \<^verbatim>\<open>print\<close> that is the last statement of its branch is left out: it comes after
  every write and every assignment of the branch, and when it raises the loop of the handler
  ends, as it does when the connection closes. The \<^verbatim>\<open>print\<close> calls of the \<^verbatim>\<open>private_chat\<close>
  branch come before writes and are modelled. The branches follow, in the order of the
  \<^verbatim>\<open>if\<close>/\<^verbatim>\<open>elif\<close> chain; \<open>m\<close> is the dict \<^verbatim>\<open>msg\<close>.
\<close>

type_synonym outcome = "(error \<times> send list) + (server \<times> send list)"

definition on_chat :: "clock \<Rightarrow> string \<Rightarrow> (string \<times> json) list \<Rightarrow> server
    \<Rightarrow> outcome" where
  "on_chat clock username m s =
     (case map_of m ''message'' of
        None \<Rightarrow> Inl (KeyError, [])
      | Some message \<Rightarrow>
          Inr (s, broadcast_message s (chat_frame username message (strftime_HMS (clock 0))) None))"

definition on_video_register :: "string \<Rightarrow> (string \<times> json) list \<Rightarrow> server
    \<Rightarrow> outcome" where
  "on_video_register username m s =
     (case map_of (clients s) username of
        None \<Rightarrow> Inr (s, [])
      | Some client_info \<Rightarrow>
          (case map_of m ''address'' of
             None \<Rightarrow> Inl (KeyError, [])
           | Some a \<Rightarrow>
               (case py_tuple a of
                  Inl e \<Rightarrow> Inl (e, [])
                | Inr t \<Rightarrow>
                    Inr (s\<lparr>clients :=
                           AList.update username (client_info\<lparr>video_addr := Some t\<rparr>) (clients s)\<rparr>,
                         []))))"

definition on_audio_register :: "string \<Rightarrow> (string \<times> json) list \<Rightarrow> server
    \<Rightarrow> outcome" where
  "on_audio_register username m s =
     (case map_of (clients s) username of
        None \<Rightarrow> Inr (s, [])
      | Some client_info \<Rightarrow>
          (case map_of m ''address'' of
             None \<Rightarrow> Inl (KeyError, [])
           | Some a \<Rightarrow>
               (case py_tuple a of
                  Inl e \<Rightarrow> Inl (e, [])
                | Inr t \<Rightarrow>
                    Inr (s\<lparr>clients :=
                           AList.update username (client_info\<lparr>audio_addr := Some t\<rparr>) (clients s)\<rparr>,
                         []))))"

definition on_start_presentation :: "string \<Rightarrow> server \<Rightarrow> outcome" where
  "on_start_presentation username s =
     (case presenter s of
        None \<Rightarrow>
          (let s' = s\<lparr>presenter := Some username\<rparr>
           in Inr (s', broadcast_message s' (presentation_started username) None
                       @ send_to_user s' username presentation_control_started))
      | Some current \<Rightarrow>
          Inr (s, send_to_user s username (presentation_control_denied current)))"

definition on_stop_presentation :: "string \<Rightarrow> server \<Rightarrow> outcome" where
  "on_stop_presentation username s =
     (if presenter s = Some username then
        (let s' = s\<lparr>presenter := None\<rparr>
         in Inr (s', broadcast_message s' (presentation_stopped username) None))
      else Inr (s, []))"

definition on_screen_frame :: "string \<Rightarrow> (string \<times> json) list \<Rightarrow> server
    \<Rightarrow> outcome" where
  "on_screen_frame username m s =
     (if presenter s = Some username then
        (case map_of m ''frame_data'' of
           None \<Rightarrow> Inl (KeyError, [])
         | Some frame_data \<Rightarrow>
             Inr (s, broadcast_message s (screen_frame username frame_data) None))
      else Inr (s, []))"

text \<open>\<^verbatim>\<open>(msg.get('to') or '').strip()\<close>: \<^verbatim>\<open>AttributeError\<close> when the field is true and is
  not a string.\<close>

definition to_user_of :: "pylib \<Rightarrow> (string \<times> json) list \<Rightarrow> error + string" where
  "to_user_of lib m =
     (case map_of m ''to'' of
        None \<Rightarrow> Inr (str_strip lib [])
      | Some v \<Rightarrow>
          if \<not> truthy v then Inr (str_strip lib [])
          else (case v of JStr t \<Rightarrow> Inr (str_strip lib t) | _ \<Rightarrow> Inl AttributeError))"

text \<open>The \<^verbatim>\<open>for key in self.clients.keys()\<close> loop: the first key equal to the recipient
  up to case.\<close>

definition canonical :: "pylib \<Rightarrow> server \<Rightarrow> string \<Rightarrow> string option" where
  "canonical lib s to_user =
     find (\<lambda>key. str_lower lib key = str_lower lib to_user) (map fst (clients s))"

text \<open>
  The \<^verbatim>\<open>private_chat\<close> branch. Its first \<^verbatim>\<open>print\<close> writes the sender, the recipient and the
  text, before the lookup. The \<^verbatim>\<open>print\<close> after the broadcast writes the key found, and comes
  before the echo. The \<^verbatim>\<open>print\<close> after the warning writes the recipient again, and returns
  because the first one has. \<open>clock 0\<close> and \<open>clock 1\<close> are the first and the second call of
  \<^verbatim>\<open>datetime.now()\<close>.
\<close>

definition on_private_chat :: "pylib \<Rightarrow> clock \<Rightarrow> string \<Rightarrow> (string \<times> json) list \<Rightarrow> server
    \<Rightarrow> outcome" where
  "on_private_chat lib clock username m s =
     (case to_user_of lib m of
        Inl e \<Rightarrow> Inl (e, [])
      | Inr to_user \<Rightarrow>
          (let text = (case map_of m ''message'' of None \<Rightarrow> JStr [] | Some v \<Rightarrow> v) in
           if to_user = [] \<or> to_user = username then Inr (s, [])
           else if \<not> (printable lib (JStr username) \<and> printable lib (JStr to_user)
                        \<and> printable lib text)
           then Inl (UnicodeEncodeError, [])
           else
             (case canonical lib s to_user of
                Some canonical_to \<Rightarrow>
                  if canonical_to \<noteq> [] then
                    (let delivered =
                           broadcast_message s
                             (private_chat_frame username canonical_to text
                                (strftime_HMS (clock 0))) None
                     in if \<not> printable lib (JStr canonical_to)
                        then Inl (UnicodeEncodeError, delivered)
                        else Inr (s, delivered
                                     @ send_to_user s username
                                         (private_chat_frame username canonical_to text
                                            (strftime_HMS (clock 1)))))
                  else
                    Inr (s, send_to_user s username (not_online to_user)
                            @ send_to_user s username
                                (private_chat_frame username to_user text
                                   (strftime_HMS (clock 0))))
              | None \<Rightarrow>
                  Inr (s, send_to_user s username (not_online to_user)
                          @ send_to_user s username
                              (private_chat_frame username to_user text
                                 (strftime_HMS (clock 0)))))))"

definition on_file_upload :: "clock \<Rightarrow> string \<Rightarrow> (string \<times> json) list \<Rightarrow> server
    \<Rightarrow> outcome" where
  "on_file_upload clock username m s =
     (case (map_of m ''file_id'', map_of m ''filename'', map_of m ''size'', map_of m ''data'') of
        (Some file_id, Some name, Some sz, Some dat) \<Rightarrow>
          if \<not> hashable file_id then Inl (TypeError, [])
          else
            (let info = \<lparr>filename = name, fsize = sz, fdata = dat, uploader = username,
                         ftimestamp = strftime_Ymd_HMS (clock 0)\<rparr>;
                 s' = s\<lparr>shared_files := AList.update (dict_key file_id) info (shared_files s)\<rparr>
             in Inr (s', broadcast_message s' (file_available file_id name sz username) None))
      | _ \<Rightarrow> Inl (KeyError, []))"

definition on_file_download :: "string \<Rightarrow> (string \<times> json) list \<Rightarrow> server
    \<Rightarrow> outcome" where
  "on_file_download username m s =
     (case map_of m ''file_id'' of
        None \<Rightarrow> Inl (KeyError, [])
      | Some file_id \<Rightarrow>
          if \<not> hashable file_id then Inl (TypeError, [])
          else
            (case map_of (shared_files s) (dict_key file_id) of
               Some file_info \<Rightarrow> Inr (s, send_to_user s username (file_data file_id file_info))
             | None \<Rightarrow> Inr (s, [])))"

text \<open>\<^verbatim>\<open>msg.get('type')\<close> raises \<^verbatim>\<open>AttributeError\<close> when \<^verbatim>\<open>msg\<close> is not a dict.\<close>

definition process_message :: "pylib \<Rightarrow> clock \<Rightarrow> string \<Rightarrow> json \<Rightarrow> server
    \<Rightarrow> outcome" where
  "process_message lib clock username msg s =
     (case msg of
        JObj m \<Rightarrow>
          (let msg_type = map_of m ''type'' in
           if msg_type = Some (JStr ''chat'') then on_chat clock username m s
           else if msg_type = Some (JStr ''video_register'') then on_video_register username m s
           else if msg_type = Some (JStr ''audio_register'') then on_audio_register username m s
           else if msg_type = Some (JStr ''start_presentation'') then
             on_start_presentation username s
           else if msg_type = Some (JStr ''stop_presentation'') then
             on_stop_presentation username s
           else if msg_type = Some (JStr ''screen_frame'') then on_screen_frame username m s
           else if msg_type = Some (JStr ''private_chat'') then
             on_private_chat lib clock username m s
           else if msg_type = Some (JStr ''file_upload'') then on_file_upload clock username m s
           else if msg_type = Some (JStr ''file_download'') then on_file_download username m s
           else Inr (s, []))
      | _ \<Rightarrow> Inl (AttributeError, []))"

subsection \<open>\<^verbatim>\<open>handle_client\<close>\<close>

text \<open>
  \<^verbatim>\<open>handle_client\<close> is modelled in the parts that its thread runs one after the other: the
  reading of the first message, the registration, the turns of the \<^verbatim>\<open>while self.running\<close>
  loop, and the \<^verbatim>\<open>finally\<close> block, which is three parts, one for each of its lock scopes and one
  for the last broadcast. Other threads run between the parts.

  \<open>first_username\<close> is what the local variable \<^verbatim>\<open>username\<close> holds when the assignment
  \<^verbatim>\<open>username = data['username']\<close> has been made, for the result \<open>data\<close> of the first
  \<^verbatim>\<open>recv_message\<close>. It is \<open>None\<close> when the assignment is not reached: the first message is
  missing or false, is not a dict, has no \<^verbatim>\<open>type\<close> or another one than \<^verbatim>\<open>'register'\<close>, or has
  no \<^verbatim>\<open>username\<close>; the thread then goes to the \<^verbatim>\<open>finally\<close> block with \<^verbatim>\<open>username = None\<close>,
  which only closes the socket.
\<close>

definition first_username :: "json option \<Rightarrow> json option" where
  "first_username data =
     (case data of
        Some (JObj m) \<Rightarrow>
          if m = [] then None
          else if map_of m ''type'' \<noteq> Some (JStr ''register'') then None
          else map_of m ''username''
      | _ \<Rightarrow> None)"

text \<open>
  The registration, for a \<^verbatim>\<open>username\<close> that is a string: the assignment to
  \<^verbatim>\<open>self.clients[username]\<close>, the \<^verbatim>\<open>welcome\<close> message, \<^verbatim>\<open>presentation_started\<close> when somebody
  presents, and the \<^verbatim>\<open>user_joined\<close> broadcast. The assignment is the first statement and the
  only one that changes the state; the writes are taken with the state right after it. The
  \<^verbatim>\<open>print\<close> that follows is the last statement before the loop; when it raises, the thread
  goes to the \<^verbatim>\<open>finally\<close> block, as it does when the first \<^verbatim>\<open>recv_message\<close> of the loop returns
  \<^verbatim>\<open>None\<close>.
\<close>

definition handle_client_register :: "sock \<Rightarrow> string \<times> nat \<Rightarrow> string \<Rightarrow> server
    \<Rightarrow> server \<times> send list" where
  "handle_client_register client_socket addr username s =
     (let s' = s\<lparr>clients :=
                 AList.update username
                   \<lparr>tcp_socket = client_socket, address = addr,
                    video_addr = None, audio_addr = None\<rparr> (clients s)\<rparr>
      in (s',
          [(client_socket, welcome_message username (users s'))]
          @ (case presenter s' of
               None \<Rightarrow> []
             | Some p \<Rightarrow> [(client_socket, presentation_started p)])
          @ broadcast_message s' (user_joined username (users s')) (Some username)))"

text \<open>
  One turn of the loop, for the result \<open>msg\<close> of \<^verbatim>\<open>recv_message\<close>. The loop goes on after a
  call of \<^verbatim>\<open>process_message\<close> that returns. It ends on \<^verbatim>\<open>not msg\<close> and on an exception of
  \<^verbatim>\<open>process_message\<close>, after the writes that the call has made.
\<close>

datatype turn = Goes_on server "send list" | Ends "send list"

definition handle_client_turn :: "pylib \<Rightarrow> clock \<Rightarrow> string \<Rightarrow> json option \<Rightarrow> server \<Rightarrow> turn" where
  "handle_client_turn lib clock username msg s =
     (case msg of
        None \<Rightarrow> Ends []
      | Some m \<Rightarrow>
          if \<not> truthy m then Ends []
          else
            (case process_message lib clock username m s of
               Inl (e, out) \<Rightarrow> Ends out
             | Inr (s', out) \<Rightarrow> Goes_on s' out))"

text \<open>
  The \<^verbatim>\<open>finally\<close> block, entered with a \<^verbatim>\<open>username\<close> that is a string and is not empty
  (\<^verbatim>\<open>if username\<close> is false for the empty string, and the block then only closes the socket).
  First, under \<^verbatim>\<open>clients_lock\<close>, the entry of the name is deleted.
\<close>

definition finally_deregister :: "string \<Rightarrow> server \<Rightarrow> server" where
  "finally_deregister username s = s\<lparr>clients := AList.delete username (clients s)\<rparr>"

text \<open>Then, under \<^verbatim>\<open>presenter_lock\<close>, the slot is emptied when it holds the name, and
  \<^verbatim>\<open>presentation_stopped\<close> is broadcast.\<close>

definition finally_presenter :: "string \<Rightarrow> server \<Rightarrow> server \<times> send list" where
  "finally_presenter username s =
     (if presenter s = Some username then
        (let s' = s\<lparr>presenter := None\<rparr>
         in (s', broadcast_message s' (presentation_stopped username) None))
      else (s, []))"

text \<open>Last, \<^verbatim>\<open>user_left\<close> is broadcast.\<close>

definition finally_notify :: "string \<Rightarrow> server \<Rightarrow> send list" where
  "finally_notify username s = broadcast_message s (user_left username (users s)) None"

subsection \<open>The server and its handler threads\<close>

text \<open>
  A handler thread is known by the number of its connection. It has its locals \<^verbatim>\<open>username\<close>
  and \<^verbatim>\<open>client_socket\<close>, and it is at one of four places: in the loop, past the loop and
  before the \<^verbatim>\<open>finally\<close> block, past the first lock scope of the block, and past the second.
\<close>

datatype phase = Looping | Leaving | Deregistered | Checked

record handler =
  h_username :: string
  h_socket :: sock
  h_phase :: phase

record system =
  srv :: server
  handlers :: "(nat \<times> handler) list"

text \<open>
  An event is one part of one thread. \<open>Accept\<close> is the first message of a new connection, with
  its socket and peer address, and the registration. \<open>Receive\<close> is one turn of the loop of a
  connection, with the clock of that turn and the result of \<^verbatim>\<open>recv_message\<close>. \<open>Finally\<close> is the
  next part of the \<^verbatim>\<open>finally\<close> block of a connection whose loop has ended. A registration and
  a turn of the loop make at most one assignment to the state of the server each, and are one
  step each; the \<^verbatim>\<open>finally\<close> block makes two, in two lock scopes, and is three steps. An
  event that is not enabled changes nothing. A step is \<open>None\<close> when a connection registers
  under a value that is not a string. A run interleaves the threads at this grain.
\<close>

datatype event =
    Accept nat sock "string \<times> nat" "json option"
  | Receive nat clock "json option"
  | Finally nat

fun connection :: "event \<Rightarrow> nat" where
  "connection (Accept c client_socket addr data) = c"
| "connection (Receive c clock msg) = c"
| "connection (Finally c) = c"

fun step :: "pylib \<Rightarrow> event \<Rightarrow> system \<Rightarrow> (system \<times> send list) option" where
  "step lib (Accept c client_socket addr data) sys =
     (if map_of (handlers sys) c \<noteq> None then Some (sys, [])
      else
        (case first_username data of
           None \<Rightarrow> Some (sys, [])
         | Some (JStr username) \<Rightarrow>
             (case handle_client_register client_socket addr username (srv sys) of
                (s', out) \<Rightarrow>
                  Some (sys\<lparr>srv := s',
                            handlers :=
                              AList.update c
                                \<lparr>h_username = username, h_socket = client_socket,
                                 h_phase = Looping\<rparr> (handlers sys)\<rparr>,
                        out))
         | Some _ \<Rightarrow> None))"
| "step lib (Receive c clock msg) sys =
     (case map_of (handlers sys) c of
        None \<Rightarrow> Some (sys, [])
      | Some h \<Rightarrow>
          if h_phase h \<noteq> Looping then Some (sys, [])
          else
            (case handle_client_turn lib clock (h_username h) msg (srv sys) of
               Goes_on s' out \<Rightarrow> Some (sys\<lparr>srv := s'\<rparr>, out)
             | Ends out \<Rightarrow>
                 Some (sys\<lparr>handlers := AList.update c (h\<lparr>h_phase := Leaving\<rparr>) (handlers sys)\<rparr>,
                       out)))"
| "step lib (Finally c) sys =
     (case map_of (handlers sys) c of
        None \<Rightarrow> Some (sys, [])
      | Some h \<Rightarrow>
          (case h_phase h of
             Looping \<Rightarrow> Some (sys, [])
           | Leaving \<Rightarrow>
               if h_username h = [] then
                 Some (sys\<lparr>handlers := AList.delete c (handlers sys)\<rparr>, [])
               else
                 Some (sys\<lparr>srv := finally_deregister (h_username h) (srv sys),
                           handlers :=
                             AList.update c (h\<lparr>h_phase := Deregistered\<rparr>) (handlers sys)\<rparr>,
                       [])
           | Deregistered \<Rightarrow>
               (case finally_presenter (h_username h) (srv sys) of
                  (s', out) \<Rightarrow>
                    Some (sys\<lparr>srv := s',
                              handlers :=
                                AList.update c (h\<lparr>h_phase := Checked\<rparr>) (handlers sys)\<rparr>,
                          out))
           | Checked \<Rightarrow>
               Some (sys\<lparr>handlers := AList.delete c (handlers sys)\<rparr>,
                     finally_notify (h_username h) (srv sys))))"

fun run :: "pylib \<Rightarrow> event list \<Rightarrow> system \<Rightarrow> (system \<times> send list) option" where
  "run lib [] sys = Some (sys, [])"
| "run lib (e # es) sys =
     (case step lib e sys of
        None \<Rightarrow> None
      | Some (sys1, out1) \<Rightarrow>
          (case run lib es sys1 of
             None \<Rightarrow> None
           | Some (sys2, out2) \<Rightarrow> Some (sys2, out1 @ out2)))"

definition initial :: system where
  "initial = \<lparr>srv = \<lparr>clients = [], presenter = None, shared_files = []\<rparr>, handlers = []\<rparr>"

text \<open>
  An \<open>Accept\<close> event registers a fresh identity when it registers nothing, or registers a
  string that is not empty, is not a key of \<^verbatim>\<open>self.clients\<close> and is not the \<^verbatim>\<open>username\<close> of a
  handler thread that is still alive.
\<close>

fun fresh_identity :: "event \<Rightarrow> system \<Rightarrow> bool" where
  "fresh_identity (Accept c client_socket addr data) sys =
     (map_of (handlers sys) c \<noteq> None \<or>
      (case first_username data of
         None \<Rightarrow> True
       | Some (JStr username) \<Rightarrow>
           username \<noteq> [] \<and> map_of (clients (srv sys)) username = None
           \<and> list_all (\<lambda>(c', h). h_username h \<noteq> username) (handlers sys)
       | Some _ \<Rightarrow> False))"
| "fresh_identity (Receive c clock msg) sys = True"
| "fresh_identity (Finally c) sys = True"

fun fresh_run :: "pylib \<Rightarrow> event list \<Rightarrow> system \<Rightarrow> bool" where
  "fresh_run lib [] sys = True"
| "fresh_run lib (e # es) sys =
     (fresh_identity e sys
      \<and> (case step lib e sys of
            None \<Rightarrow> False
          | Some (sys1, out1) \<Rightarrow> fresh_run lib es sys1))"

text \<open>
  The claim of liveness as the specification words it: the presenter slot is empty, or holds
  a key of \<^verbatim>\<open>self.clients\<close> that is the \<^verbatim>\<open>username\<close> of a handler thread.
\<close>

definition presenter_live :: "system \<Rightarrow> bool" where
  "presenter_live sys =
     (case presenter (srv sys) of
        None \<Rightarrow> True
      | Some p \<Rightarrow>
          map_of (clients (srv sys)) p \<noteq> None
          \<and> list_ex (\<lambda>(c, h). h_username h = p) (handlers sys))"

text \<open>
  What the code keeps: the presenter slot is empty, or holds the \<^verbatim>\<open>username\<close> of a handler
  thread that is in its loop or just past it and is registered on its own socket, or that
  has deleted its entry and has not yet looked at the slot.
\<close>

definition presenter_held :: "system \<Rightarrow> bool" where
  "presenter_held sys =
     (case presenter (srv sys) of
        None \<Rightarrow> True
      | Some p \<Rightarrow>
          list_ex (\<lambda>(c, h). h_username h = p \<and>
                     (case h_phase h of
                        Looping \<Rightarrow> registered_on (srv sys) p (h_socket h)
                      | Leaving \<Rightarrow> registered_on (srv sys) p (h_socket h)
                      | Deregistered \<Rightarrow> True
                      | Checked \<Rightarrow> False))
            (handlers sys))"

text \<open>
  The registry and the handler threads agree: the \<^verbatim>\<open>username\<close> of every handler is not empty,
  no two handlers have the same \<^verbatim>\<open>username\<close>, a handler that has not begun its \<^verbatim>\<open>finally\<close>
  block is registered on its own socket, every key of \<^verbatim>\<open>self.clients\<close> is the \<^verbatim>\<open>username\<close> of
  such a handler, and the presenter, if there is one, is the \<^verbatim>\<open>username\<close> of a handler that has
  not yet passed the second lock scope of its \<^verbatim>\<open>finally\<close> block.
\<close>

definition consistent :: "system \<Rightarrow> bool" where
  "consistent sys \<longleftrightarrow>
     (\<forall>c h. map_of (handlers sys) c = Some h \<longrightarrow> h_username h \<noteq> [])
   \<and> (\<forall>c c' h h'. map_of (handlers sys) c = Some h \<longrightarrow> map_of (handlers sys) c' = Some h' \<longrightarrow>
        h_username h = h_username h' \<longrightarrow> c = c')
   \<and> (\<forall>c h. map_of (handlers sys) c = Some h \<longrightarrow> h_phase h = Looping \<or> h_phase h = Leaving \<longrightarrow>
        registered_on (srv sys) (h_username h) (h_socket h))
   \<and> (\<forall>u. map_of (clients (srv sys)) u \<noteq> None \<longrightarrow>
        (\<exists>c h. map_of (handlers sys) c = Some h \<and> h_username h = u
               \<and> (h_phase h = Looping \<or> h_phase h = Leaving)))
   \<and> (\<forall>p. presenter (srv sys) = Some p \<longrightarrow>
        (\<exists>c h. map_of (handlers sys) c = Some h \<and> h_username h = p \<and> h_phase h \<noteq> Checked))"

subsection \<open>\<^verbatim>\<open>handle_video_stream\<close> and \<^verbatim>\<open>handle_audio_stream\<close>\<close>

text \<open>
  One turn of the relay loop, for the datagram \<open>data\<close> that \<^verbatim>\<open>recvfrom\<close> returned.
  \<open>Dropped\<close> is a \<^verbatim>\<open>continue\<close>; \<open>Raised\<close> is an exception caught by the \<^verbatim>\<open>except\<close> clause of
  the loop (the sender's name is not UTF-8); \<open>Forwarded\<close> lists the calls of \<^verbatim>\<open>sendto\<close> in
  order, each with its destination and its bytes. A \<^verbatim>\<open>sendto\<close> that raises is caught inside
  the \<^verbatim>\<open>for\<close> loop, which goes on. \<open>decode\<close> is \<^verbatim>\<open>bytes.decode('utf-8')\<close>, \<open>None\<close> when it raises.
\<close>

datatype relay = Dropped | Raised | Forwarded "(json list \<times> bytes) list"

definition handle_video_stream :: "byteorder \<Rightarrow> (bytes \<Rightarrow> string option) \<Rightarrow> server \<Rightarrow> bytes
    \<Rightarrow> relay" where
  "handle_video_stream bo decode s data =
     (if length data < 4 then Dropped
      else
        (case unpack_I bo (take 4 data) of
           None \<Rightarrow> Raised
         | Some username_len \<Rightarrow>
             if length data < 4 + username_len then Dropped
             else
               (case decode (take username_len (drop 4 data)) of
                  None \<Rightarrow> Raised
                | Some username \<Rightarrow>
                    Forwarded
                      (concat (map (\<lambda>(client_name, client_info).
                         (case video_addr client_info of
                            None \<Rightarrow> []
                          | Some a \<Rightarrow>
                              if client_name \<noteq> username \<and> a \<noteq> [] then [(a, data)] else []))
                         (clients s))))))"

definition handle_audio_stream :: "byteorder \<Rightarrow> (bytes \<Rightarrow> string option) \<Rightarrow> server \<Rightarrow> bytes
    \<Rightarrow> relay" where
  "handle_audio_stream bo decode s data =
     (if length data < 4 then Dropped
      else
        (case unpack_I bo (take 4 data) of
           None \<Rightarrow> Raised
         | Some username_len \<Rightarrow>
             if length data < 4 + username_len then Dropped
             else
               (case decode (take username_len (drop 4 data)) of
                  None \<Rightarrow> Raised
                | Some username \<Rightarrow>
                    Forwarded
                      (concat (map (\<lambda>(client_name, client_info).
                         (case audio_addr client_info of
                            None \<Rightarrow> []
                          | Some a \<Rightarrow>
                              if client_name \<noteq> username \<and> a \<noteq> [] then [(a, data)] else []))
                         (clients s))))))"

subsection \<open>Library functions on ASCII text, for the examples\<close>

text \<open>On ASCII strings \<^verbatim>\<open>str.lower\<close> maps the capital letters to the small ones and
  \<^verbatim>\<open>str.strip\<close> removes the white space at both ends; \<^verbatim>\<open>bytes.decode\<close> maps a byte below 128
  to its character; \<^verbatim>\<open>sys.stdout\<close> can encode every ASCII text.\<close>

definition ascii_lower :: "string \<Rightarrow> string" where
  "ascii_lower =
     map (\<lambda>c. case map_of (zip ''ABCDEFGHIJKLMNOPQRSTUVWXYZ'' ''abcdefghijklmnopqrstuvwxyz'') c of
                 Some l \<Rightarrow> l
               | None \<Rightarrow> c)"

definition ascii_space :: "char \<Rightarrow> bool" where
  "ascii_space c \<longleftrightarrow> c \<in> set [CHR '' '', CHR 0x09, CHR 0x0A, CHR 0x0B, CHR 0x0C, CHR 0x0D]"

definition ascii_strip :: "string \<Rightarrow> string" where
  "ascii_strip s = rev (dropWhile ascii_space (rev (dropWhile ascii_space s)))"

definition ascii_lib :: pylib where
  "ascii_lib = \<lparr>str_lower = ascii_lower, str_strip = ascii_strip, printable = (\<lambda>v. True)\<rparr>"

definition ascii_decode :: "bytes \<Rightarrow> string option" where
  "ascii_decode b =
     (if list_all (\<lambda>x. unat x < 128) b then Some (map (\<lambda>x. char_of (unat x)) b) else None)"

text \<open>\<^verbatim>\<open>json.loads\<close> on the texts of the examples: \<^verbatim>\<open>[7]\<close> and \<^verbatim>\<open>null\<close> are JSON, and the text
  of the three control characters 1, 2, 3 is not.\<close>

definition example_loads :: "string \<Rightarrow> json option" where
  "example_loads text =
     (if text = ''[7]'' then Some (JArr [JInt 7])
      else if text = ''null'' then Some JNull
      else None)"

text \<open>A clock that reads noon and the seconds after it, and a server with the two clients
  \<^verbatim>\<open>Alice\<close> and \<^verbatim>\<open>bob\<close>, on the sockets 1 and 2.\<close>

definition noon :: clock where
  "noon i = \<lparr>year = 2024, month = 1, day = 2, hour = 12, minute = 0, second = i\<rparr>"

definition alice_and_bob :: server where
  "alice_and_bob =
     \<lparr>clients =
        [(''Alice'', \<lparr>tcp_socket = 1, address = (''10.0.0.1'', 50001),
                      video_addr = Some [JStr ''10.0.0.1'', JInt 6001],
                      audio_addr = Some [JStr ''10.0.0.1'', JInt 7001]\<rparr>),
         (''bob'', \<lparr>tcp_socket = 2, address = (''10.0.0.2'', 50002),
                    video_addr = Some [JStr ''10.0.0.2'', JInt 6002],
                    audio_addr = None\<rparr>)],
      presenter = None, shared_files = []\<rparr>"

section \<open>Properties\<close>

subsection \<open>Frame codec\<close>

lemma four_byte_sum:
  assumes "n < (2::nat) ^ 32"
  shows "n mod 256 + 256 * (n div 256 mod 256) + 65536 * (n div 65536 mod 256)
           + 16777216 * (n div 16777216 mod 256) = n"
proof -
  define a where "a = n div 256"
  define b where "b = a div 256"
  define c where "c = b div 256"
  have e1: "n div 65536 = b"
    unfolding b_def a_def by (simp add: div_mult2_eq [symmetric])
  have e2: "n div 16777216 = c"
    unfolding c_def b_def a_def by (simp add: div_mult2_eq [symmetric])
  have "c < 256"
    using assms unfolding e2 [symmetric] by simp
  then have e3: "c mod 256 = c" by simp
  have n: "n = 256 * a + n mod 256" unfolding a_def by simp
  have a: "a = 256 * b + a mod 256" unfolding b_def by simp
  have b: "b = 256 * c + b mod 256" unfolding c_def by simp
  show ?thesis
    unfolding e1 e2 e3 a_def [symmetric] using n a b by linarith
qed

lemma le_value_le_bytes: "n < 2 ^ 32 \<Longrightarrow> le_value (le_bytes n) = Some n"
  unfolding le_bytes_def using four_byte_sum [of n]
  by (simp add: unat_of_nat)

lemma length_le_bytes: "length (le_bytes n) = 4"
  by (simp add: le_bytes_def)

lemma unpack_pack: "pack_I bo n = Some b \<Longrightarrow> unpack_I bo b = Some n \<and> length b = 4"
  by (cases bo) (auto simp: pack_I_def unpack_I_def le_value_le_bytes length_le_bytes split: if_splits)

lemma recv_cases:
  "recv k s = (packet, s') \<Longrightarrow> 0 < k \<Longrightarrow>
     (pending s = [] \<and> packet = [] \<and> s' = s) \<or>
     (pending s \<noteq> [] \<and> packet \<noteq> [] \<and> length packet \<le> k \<and> pending s = packet @ pending s')"
  by (auto simp: recv_def Let_def min_def max_def split: list.splits if_splits)

lemma recv_exact_loop_complete:
  "length data \<le> n \<Longrightarrow> n \<le> length data + length (pending s) \<Longrightarrow>
   \<exists>s'. recv_exact_loop s n data = (Some (data @ take (n - length data) (pending s)), s')
        \<and> pending s' = drop (n - length data) (pending s)"
proof (induction s n data rule: recv_exact_loop.induct)
  case (1 s n data)
  show ?case
  proof (cases "length data < n")
    case False
    with 1 show ?thesis by simp
  next
    case True
    obtain packet s' where r: "recv (n - length data) s = (packet, s')"
      by (cases "recv (n - length data) s")
    from recv_cases[OF r] True "1.prems" have ne: "packet \<noteq> []"
      and le: "length packet \<le> n - length data"
      and p: "pending s = packet @ pending s'" by auto
    have a: "length (data @ packet) \<le> n" using le True by simp
    have b: "n \<le> length (data @ packet) + length (pending s')"
      using "1.prems"(2) p by simp
    from "1.IH"[OF True r[symmetric] ne a b]
    obtain s'' where c: "recv_exact_loop s' n (data @ packet) =
         (Some ((data @ packet) @ take (n - length (data @ packet)) (pending s')), s'')"
      and d: "pending s'' = drop (n - length (data @ packet)) (pending s')"
      by blast
    have e: "recv_exact_loop s n data = recv_exact_loop s' n (data @ packet)"
      using True r ne by (subst recv_exact_loop.simps) simp
    have f: "(data @ packet) @ take (n - length (data @ packet)) (pending s')
           = data @ take (n - length data) (pending s)"
      using p le by simp
    have g: "drop (n - length (data @ packet)) (pending s') = drop (n - length data) (pending s)"
      using p le by simp
    show ?thesis unfolding e using c d f g by simp
  qed
qed

lemma recv_exact_loop_short:
  "length data + length (pending s) < n \<Longrightarrow> fst (recv_exact_loop s n data) = None"
proof (induction s n data rule: recv_exact_loop.induct)
  case (1 s n data)
  then have lt: "length data < n" by simp
  obtain packet s' where r: "recv (n - length data) s = (packet, s')"
    by (cases "recv (n - length data) s")
  show ?case
  proof (cases "packet = []")
    case True
    with lt r show ?thesis by (subst recv_exact_loop.simps) simp
  next
    case False
    with recv_cases[OF r] lt have p: "pending s = packet @ pending s'" by auto
    with "1.IH"[OF lt r[symmetric] False] "1.prems"
    have "fst (recv_exact_loop s' n (data @ packet)) = None" by simp
    with lt r False show ?thesis by (subst recv_exact_loop.simps) simp
  qed
qed


lemma recv_exact_complete:
  "n \<le> length (pending s) \<Longrightarrow>
   \<exists>s'. recv_exact s n = (Some (take n (pending s)), s') \<and> pending s' = drop n (pending s)"
  using recv_exact_loop_complete [of "[]" n s] by (simp add: recv_exact_def)

lemma recv_exact_short:
  "length (pending s) < n \<Longrightarrow> fst (recv_exact s n) = None"
  using recv_exact_loop_short [of "[]" s n] by (simp add: recv_exact_def)

lemma recv_message_complete:
  assumes "pending s = len @ p @ rest" "length len = 4" "unpack_I bo len = Some (length p)"
    "p \<noteq> []"
  shows "\<exists>s'. recv_message bo decode loads s =
                ((case decode p of
                    None \<Rightarrow> None
                  | Some text \<Rightarrow>
                      (case loads text of
                         None \<Rightarrow> None
                       | Some v \<Rightarrow> if v = JNull then None else Some v)), s')
             \<and> pending s' = rest"
proof -
  from assms have "4 \<le> length (pending s)" by simp
  from recv_exact_complete [OF this] assms obtain s1
    where r1: "recv_exact s 4 = (Some len, s1)" and p1: "pending s1 = p @ rest"
    by auto
  have "length p \<le> length (pending s1)" using p1 by simp
  from recv_exact_complete [OF this] p1 obtain s2
    where r2: "recv_exact s1 (length p) = (Some p, s2)" and p2: "pending s2 = rest"
    by auto
  have "len \<noteq> []" using assms(2) by auto
  then have "recv_message bo decode loads s =
                ((case decode p of
                    None \<Rightarrow> None
                  | Some text \<Rightarrow>
                      (case loads text of
                         None \<Rightarrow> None
                       | Some v \<Rightarrow> if v = JNull then None else Some v)), s2)"
    using r1 r2 assms(3,4) by (simp add: recv_message_def split: option.splits)
  with p2 show ?thesis by blast
qed

lemma recv_message_short:
  assumes "pending s = take k (len @ p)" "k < 4 + length p" "length len = 4"
    "unpack_I bo len = Some (length p)"
  shows "fst (recv_message bo decode loads s) = None"
proof (cases "k < 4")
  case True
  then have "length (pending s) < 4" using assms(1,3) by simp
  from recv_exact_short [OF this] show ?thesis
    by (cases "recv_exact s 4") (simp add: recv_message_def)
next
  case False
  then have ps: "pending s = len @ take (k - 4) p" using assms(1,3) by simp
  then have "4 \<le> length (pending s)" using assms(3) by simp
  from recv_exact_complete [OF this] ps assms(3) obtain s1
    where r1: "recv_exact s 4 = (Some len, s1)" and p1: "pending s1 = take (k - 4) p"
    by auto
  have "length (pending s1) < length p" using p1 assms(2) False by simp
  from recv_exact_short [OF this] have "fst (recv_exact s1 (length p)) = None" .
  then show ?thesis
    using r1 assms(4) by (cases "recv_exact s1 (length p)") (simp add: recv_message_def)
qed

lemma recv_message_empty_payload:
  assumes "pending s = len @ rest" "length len = 4" "unpack_I bo len = Some 0"
  shows "fst (recv_message bo decode loads s) = None"
proof -
  from assms have "4 \<le> length (pending s)" by simp
  from recv_exact_complete [OF this] assms obtain s1
    where r1: "recv_exact s 4 = (Some len, s1)" by auto
  have "recv_exact s1 0 = (Some [], s1)" by (simp add: recv_exact_def)
  with r1 assms(3) show ?thesis by (simp add: recv_message_def)
qed

text \<open>
  Claim C8, as the code has it. For every non-empty payload \<open>p\<close> of fewer than \<open>2 ^ 32\<close>
  bytes, the frame that \<^verbatim>\<open>send_message\<close> writes for a message that serialises to \<open>p\<close> is the
  4-byte unsigned length of \<open>p\<close> in the byte order of the host, followed by \<open>p\<close>.
  \<^verbatim>\<open>recv_message\<close>, reading a stream that begins with this frame, in the same byte order and
  however the network cuts the stream into packets, consumes exactly the 4 bytes and the
  \<open>length p\<close> bytes. It does not return \<open>p\<close>: it returns the value that \<open>p\<close> is the UTF-8 JSON
  text of, and \<^verbatim>\<open>None\<close> when \<open>p\<close> is not UTF-8, is not JSON, or is the text \<^verbatim>\<open>null\<close>. When the
  peer closes before the whole frame has arrived, it returns \<^verbatim>\<open>None\<close> and no partial data.
\<close>

theorem frame_codec_roundtrip:
  assumes "length p < 2 ^ 32" and "p \<noteq> []"
  shows "\<exists>len. pack_I bo (length p) = Some len \<and> length len = 4
           \<and> unpack_I bo len = Some (length p)
           \<and> encode_frame bo p = Some (len @ p)
           \<and> (\<forall>message. dumps message = Some p \<longrightarrow>
                 send_message bo dumps message = Some (len @ p))
           \<and> (\<forall>s rest. pending s = len @ p @ rest \<longrightarrow>
                 (\<exists>s'. recv_message bo decode loads s =
                         ((case decode p of
                             None \<Rightarrow> None
                           | Some text \<Rightarrow>
                               (case loads text of
                                  None \<Rightarrow> None
                                | Some v \<Rightarrow> if v = JNull then None else Some v)), s')
                      \<and> pending s' = rest))
           \<and> (\<forall>s k. k < 4 + length p \<and> pending s = take k (len @ p) \<longrightarrow>
                 fst (recv_message bo decode loads s) = None)"
proof -
  from assms(1) obtain len where pk: "pack_I bo (length p) = Some len"
    by (auto simp: pack_I_def)
  from unpack_pack [OF pk] have up: "unpack_I bo len = Some (length p)" and l4: "length len = 4"
    by auto
  have enc: "encode_frame bo p = Some (len @ p)" using pk by (simp add: encode_frame_def)
  have snd: "\<forall>message. dumps message = Some p \<longrightarrow>
                 send_message bo dumps message = Some (len @ p)"
    using enc by (simp add: send_message_def)
  have good: "\<forall>s rest. pending s = len @ p @ rest \<longrightarrow>
                 (\<exists>s'. recv_message bo decode loads s =
                         ((case decode p of
                             None \<Rightarrow> None
                           | Some text \<Rightarrow>
                               (case loads text of
                                  None \<Rightarrow> None
                                | Some v \<Rightarrow> if v = JNull then None else Some v)), s')
                      \<and> pending s' = rest)"
    using recv_message_complete [OF _ l4 up assms(2)] by blast
  have short: "\<forall>s k. k < 4 + length p \<and> pending s = take k (len @ p) \<longrightarrow>
                 fst (recv_message bo decode loads s) = None"
    using recv_message_short [OF _ _ l4 up] by blast
  from pk l4 up enc snd good short show ?thesis by blast
qed

text \<open>The theorem for the message \<^verbatim>\<open>[7]\<close>, whose text is the three bytes 91, 55, 93: the
  frame, a read of the frame from a stream that goes on and comes in packets of 2, 1 and more
  bytes, and a read of a stream that ends one byte early.\<close>

theorem frame_codec_roundtrip_witness:
  "length [91, 55, 93 :: byte] < 2 ^ 32 \<and> [91, 55, 93 :: byte] \<noteq> []
   \<and> send_message Little (\<lambda>m. if m = JArr [JInt 7] then Some [91, 55, 93] else None)
        (JArr [JInt 7]) = Some [3, 0, 0, 0, 91, 55, 93]
   \<and> fst (recv_message Little ascii_decode example_loads
             \<lparr>pending = [3, 0, 0, 0, 91, 55, 93, 9], sizes = [2, 1]\<rparr>) = Some (JArr [JInt 7])
   \<and> fst (recv_message Little ascii_decode example_loads
             \<lparr>pending = [3, 0, 0, 0, 91, 55], sizes = []\<rparr>) = None"
proof -
  let ?d = "\<lambda>m. if m = JArr [JInt 7] then Some [91, 55, 93 :: byte] else None"
  have h: "length [91, 55, 93 :: byte] < 2 ^ 32" "[91, 55, 93 :: byte] \<noteq> []" by simp_all
  from frame_codec_roundtrip [OF h, of Little ?d ascii_decode example_loads] obtain len where
    pk: "pack_I Little (length [91, 55, 93 :: byte]) = Some len"
    and snd: "\<And>message. ?d message = Some [91, 55, 93] \<Longrightarrow>
                 send_message Little ?d message = Some (len @ [91, 55, 93])"
    and good: "\<And>s rest. pending s = len @ [91, 55, 93] @ rest \<Longrightarrow>
                 \<exists>s'. recv_message Little ascii_decode example_loads s =
                         ((case ascii_decode [91, 55, 93] of
                             None \<Rightarrow> None
                           | Some text \<Rightarrow>
                               (case example_loads text of
                                  None \<Rightarrow> None
                                | Some v \<Rightarrow> if v = JNull then None else Some v)), s')
                      \<and> pending s' = rest"
    and short: "\<And>s k. k < 4 + length [91, 55, 93 :: byte] \<Longrightarrow>
                 pending s = take k (len @ [91, 55, 93]) \<Longrightarrow>
                 fst (recv_message Little ascii_decode example_loads s) = None"
    by blast
  from pk have len: "len = [3, 0, 0, 0]" by (simp add: pack_I_def le_bytes_def)
  have dec: "ascii_decode [91, 55, 93] = Some ''[7]''" by code_simp
  have s: "send_message Little ?d (JArr [JInt 7]) = Some [3, 0, 0, 0, 91, 55, 93]"
    using snd [of "JArr [JInt 7]"] len by simp
  have a: "fst (recv_message Little ascii_decode example_loads
             \<lparr>pending = [3, 0, 0, 0, 91, 55, 93, 9], sizes = [2, 1]\<rparr>) = Some (JArr [JInt 7])"
    using good [of "\<lparr>pending = [3, 0, 0, 0, 91, 55, 93, 9], sizes = [2, 1]\<rparr>" "[9]"] len
    by (auto simp: dec example_loads_def)
  have b: "fst (recv_message Little ascii_decode example_loads
             \<lparr>pending = [3, 0, 0, 0, 91, 55], sizes = []\<rparr>) = None"
    using short [of 6 "\<lparr>pending = [3, 0, 0, 0, 91, 55], sizes = []\<rparr>"] len by simp
  from h s a b show ?thesis by simp
qed

text \<open>
  The claim as the specification words it fails at these payloads: \<^verbatim>\<open>struct.pack\<close> rejects
  the length of a payload of \<open>2 ^ 32\<close> bytes, so no frame is written; the length bytes of the
  one-byte payload differ between a little-endian and a big-endian host; the frame of the
  empty payload is read back as \<^verbatim>\<open>None\<close>, because \<^verbatim>\<open>not data\<close> holds for \<^verbatim>\<open>b''\<close>; and the
  complete frame of the payload 1, 2, 3, which is not JSON, is read back as \<^verbatim>\<open>None\<close> and not
  as the payload.
\<close>

theorem frame_codec_counterexample:
  "encode_frame Little (replicate (2 ^ 32) 0) = None
   \<and> encode_frame Little [7] = Some [1, 0, 0, 0, 7]
   \<and> encode_frame Big [7] = Some [0, 0, 0, 1, 7]
   \<and> encode_frame Little [] = Some [0, 0, 0, 0]
   \<and> fst (recv_message Little ascii_decode example_loads
             \<lparr>pending = [0, 0, 0, 0], sizes = []\<rparr>) = None
   \<and> encode_frame Little [1, 2, 3] = Some [3, 0, 0, 0, 1, 2, 3]
   \<and> fst (recv_message Little ascii_decode example_loads
             \<lparr>pending = [3, 0, 0, 0, 1, 2, 3], sizes = []\<rparr>) = None"
proof -
  have a: "encode_frame Little (replicate (2 ^ 32) 0) = None"
    by (simp add: encode_frame_def pack_I_def)
  have b: "encode_frame Little [7] = Some [1, 0, 0, 0, 7]"
    by (simp add: encode_frame_def pack_I_def le_bytes_def)
  have c: "encode_frame Big [7] = Some [0, 0, 0, 1, 7]"
    by (simp add: encode_frame_def pack_I_def le_bytes_def)
  have d: "encode_frame Little [] = Some [0, 0, 0, 0]"
    by (simp add: encode_frame_def pack_I_def le_bytes_def)
  have e: "fst (recv_message Little ascii_decode example_loads
                  \<lparr>pending = [0, 0, 0, 0], sizes = []\<rparr>) = None"
    by (rule recv_message_empty_payload [where len = "[0, 0, 0, 0]" and rest = "[]"])
       (simp_all add: unpack_I_def)
  have f: "encode_frame Little [1, 2, 3] = Some [3, 0, 0, 0, 1, 2, 3]"
    by (simp add: encode_frame_def pack_I_def le_bytes_def)
  have parse: "(case ascii_decode [1, 2, 3] of
                   None \<Rightarrow> None
                 | Some text \<Rightarrow>
                     (case example_loads text of
                        None \<Rightarrow> None
                      | Some v \<Rightarrow> if v = JNull then None else Some v)) = None"
    by code_simp
  have "\<exists>s'. recv_message Little ascii_decode example_loads
               \<lparr>pending = [3, 0, 0, 0, 1, 2, 3], sizes = []\<rparr> =
               ((case ascii_decode [1, 2, 3] of
                   None \<Rightarrow> None
                 | Some text \<Rightarrow>
                     (case example_loads text of
                        None \<Rightarrow> None
                      | Some v \<Rightarrow> if v = JNull then None else Some v)), s')
             \<and> pending s' = []"
    by (rule recv_message_complete [where len = "[3, 0, 0, 0]"])
       (simp_all add: unpack_I_def)
  then obtain s' where "recv_message Little ascii_decode example_loads
               \<lparr>pending = [3, 0, 0, 0, 1, 2, 3], sizes = []\<rparr> = (None, s')"
    unfolding parse by blast
  then have g: "fst (recv_message Little ascii_decode example_loads
                  \<lparr>pending = [3, 0, 0, 0, 1, 2, 3], sizes = []\<rparr>) = None"
    by simp
  from a b c d e f g show ?thesis by simp
qed

subsection \<open>Timestamps\<close>




subsection \<open>Dispatch of control messages\<close>

lemma process_message_JObj:
  "process_message lib clock username (JObj m) s =
     (let msg_type = map_of m ''type'' in
           if msg_type = Some (JStr ''chat'') then on_chat clock username m s
           else if msg_type = Some (JStr ''video_register'') then on_video_register username m s
           else if msg_type = Some (JStr ''audio_register'') then on_audio_register username m s
           else if msg_type = Some (JStr ''start_presentation'') then
             on_start_presentation username s
           else if msg_type = Some (JStr ''stop_presentation'') then
             on_stop_presentation username s
           else if msg_type = Some (JStr ''screen_frame'') then on_screen_frame username m s
           else if msg_type = Some (JStr ''private_chat'') then
             on_private_chat lib clock username m s
           else if msg_type = Some (JStr ''file_upload'') then on_file_upload clock username m s
           else if msg_type = Some (JStr ''file_download'') then on_file_download username m s
           else Inr (s, []))"
  by (simp add: process_message_def)

text \<open>
  Claim C10. A message that is a dict whose \<^verbatim>\<open>type\<close> is missing or is none of the nine tags
  of the \<^verbatim>\<open>if\<close>/\<^verbatim>\<open>elif\<close> chain falls through: \<^verbatim>\<open>process_message\<close> returns with the registry,
  the presenter slot and the file store as they were, and writes to no socket.
\<close>

theorem unknown_tag_noop:
  assumes "map_of m ''type'' \<notin> Some ` JStr ` {''chat'', ''video_register'', ''audio_register'',
      ''start_presentation'', ''stop_presentation'', ''screen_frame'', ''private_chat'',
      ''file_upload'', ''file_download''}"
  shows "process_message lib clock username (JObj m) s = Inr (s, [])"
  using assms unfolding process_message_JObj Let_def by auto

theorem unknown_tag_noop_witness:
  "process_message ascii_lib noon ''Alice'' (JObj [(''type'', JStr ''ping'')]) alice_and_bob
     = Inr (alice_and_bob, [])
   \<and> process_message ascii_lib noon ''Alice'' (JObj [(''kind'', JStr ''chat'')]) alice_and_bob
     = Inr (alice_and_bob, [])"
  using unknown_tag_noop [of "[(''type'', JStr ''ping'')]" ascii_lib noon "''Alice''" alice_and_bob]
    unknown_tag_noop [of "[(''kind'', JStr ''chat'')]" ascii_lib noon "''Alice''" alice_and_bob]
  by simp

text \<open>
  Claim C6. For a \<^verbatim>\<open>file_download\<close> request whose id is hashable and is not a key of
  \<^verbatim>\<open>self.shared_files\<close>, \<^verbatim>\<open>process_message\<close> returns without a write to any socket, and the file
  store, the registry and the presenter slot are as they were.
\<close>

theorem unknown_file_id_silent:
  assumes "map_of m ''type'' = Some (JStr ''file_download'')"
    and "map_of m ''file_id'' = Some file_id"
    and "hashable file_id"
    and "map_of (shared_files s) (dict_key file_id) = None"
  shows "process_message lib clock username (JObj m) s = Inr (s, [])"
  using assms unfolding process_message_JObj Let_def by (simp add: on_file_download_def)

theorem unknown_file_id_silent_witness:
  "process_message ascii_lib noon ''bob''
     (JObj [(''type'', JStr ''file_download''), (''file_id'', JStr ''X1'')]) alice_and_bob
     = Inr (alice_and_bob, [])"
  using unknown_file_id_silent [of "[(''type'', JStr ''file_download''), (''file_id'', JStr ''X1'')]"
      "JStr ''X1''" alice_and_bob ascii_lib noon "''bob''"]
  by (simp add: alice_and_bob_def)
subsection \<open>Chat\<close>



subsection \<open>File store\<close>

text \<open>
  Claim C5, as the code has it. A client uploads a file (a message with \<^verbatim>\<open>file_id\<close>,
  \<^verbatim>\<open>filename\<close>, \<^verbatim>\<open>size\<close> and \<^verbatim>\<open>data\<close>, the id hashable) and then a client that is registered on
  the socket of its handler asks for the same id. The upload writes to every client one
  \<^verbatim>\<open>file_available\<close> frame with the id, the filename, the size and the uploader, and no
  \<^verbatim>\<open>data\<close> field, and leaves the registry and the presenter slot alone. The download writes
  exactly one frame, to the socket of the requester: \<^verbatim>\<open>file_data\<close> with the id, and the
  filename, the size and the data as they were uploaded. The server stores and returns the
  \<^verbatim>\<open>data\<close> field as it came and never decodes it; \<^verbatim>\<open>size\<close> is the number the uploader declared.
\<close>

theorem file_round_trip:
  assumes "map_of up ''type'' = Some (JStr ''file_upload'')"
    and "map_of up ''file_id'' = Some file_id"
    and "map_of up ''filename'' = Some name"
    and "map_of up ''size'' = Some sz"
    and "map_of up ''data'' = Some dat"
    and "hashable file_id"
    and "map_of down ''type'' = Some (JStr ''file_download'')"
    and "map_of down ''file_id'' = Some file_id"
    and "registered_on s requester client_socket"
  shows "\<exists>s'. process_message lib clock sender (JObj up) s =
                 Inr (s', map (\<lambda>(name', info').
                                 (tcp_socket info',
                                  JObj [(''type'', JStr ''file_available''),
                                        (''file_id'', file_id), (''filename'', name),
                                        (''size'', sz), (''uploader'', JStr sender)]))
                            (clients s))
            \<and> clients s' = clients s \<and> presenter s' = presenter s
            \<and> process_message lib clock' requester (JObj down) s' =
                 Inr (s', [(client_socket,
                            JObj [(''type'', JStr ''file_data''), (''file_id'', file_id),
                                  (''filename'', name), (''size'', sz), (''data'', dat)])])"
proof -
  from assms(9) obtain info where info: "map_of (clients s) requester = Some info"
      "tcp_socket info = client_socket"
    by (auto simp: registered_on_def split: option.splits)
  let ?info = "\<lparr>filename = name, fsize = sz, fdata = dat, uploader = sender,
                 ftimestamp = strftime_Ymd_HMS (clock 0)\<rparr>"
  let ?s' = "s\<lparr>shared_files := AList.update (dict_key file_id) ?info (shared_files s)\<rparr>"
  have bc: "broadcast_message ?s' (file_available file_id name sz sender) None =
              map (\<lambda>(name', info').
                                 (tcp_socket info',
                                  JObj [(''type'', JStr ''file_available''),
                                        (''file_id'', file_id), (''filename'', name),
                                        (''size'', sz), (''uploader'', JStr sender)]))
                            (clients s)"
    by (simp add: broadcast_message_def case_prod_unfold file_available_def)
  have up: "process_message lib clock sender (JObj up) s =
              Inr (?s', map (\<lambda>(name', info').
                                 (tcp_socket info',
                                  JObj [(''type'', JStr ''file_available''),
                                        (''file_id'', file_id), (''filename'', name),
                                        (''size'', sz), (''uploader'', JStr sender)]))
                            (clients s))"
    using assms(1-6) bc unfolding process_message_JObj Let_def
    by (simp add: on_file_upload_def Let_def)
  have look: "map_of (shared_files ?s') (dict_key file_id) = Some ?info"
    by (simp add: update_conv')
  have down: "process_message lib clock' requester (JObj down) ?s' =
                Inr (?s', [(client_socket,
                            JObj [(''type'', JStr ''file_data''), (''file_id'', file_id),
                                  (''filename'', name), (''size'', sz), (''data'', dat)])])"
    using assms(6-8) info look unfolding process_message_JObj Let_def
    by (simp add: on_file_download_def send_to_user_def file_data_def)
  from up down show ?thesis by (intro exI [of _ ?s']) simp
qed

text \<open>
  The claim as worded fails for a request of a handler whose name has been registered again
  on another connection. \<^verbatim>\<open>Alice\<close> is registered on socket 1 and then once more on socket 3;
  \<^verbatim>\<open>bob\<close> uploads a file; the handler of socket 1 then serves a \<^verbatim>\<open>file_download\<close> of \<^verbatim>\<open>Alice\<close>.
  The data is written to socket 3, and the connection that asked receives nothing.
\<close>

theorem file_round_trip_counterexample:
  "registered_on alice_and_bob ''Alice'' 1
   \<and> fst (handle_client_register 3 (''10.0.0.3'', 50003) ''Alice'' alice_and_bob)
     = \<lparr>clients =
           [(''Alice'', \<lparr>tcp_socket = 3, address = (''10.0.0.3'', 50003),
                         video_addr = None, audio_addr = None\<rparr>),
            (''bob'', \<lparr>tcp_socket = 2, address = (''10.0.0.2'', 50002),
                       video_addr = Some [JStr ''10.0.0.2'', JInt 6002],
                       audio_addr = None\<rparr>)],
         presenter = None, shared_files = []\<rparr>
   \<and> process_message ascii_lib noon ''bob''
       (JObj [(''type'', JStr ''file_upload''), (''file_id'', JStr ''X1''),
              (''filename'', JStr ''a.txt''), (''size'', JInt 2), (''data'', JStr ''aGk='')])
       \<lparr>clients =
           [(''Alice'', \<lparr>tcp_socket = 3, address = (''10.0.0.3'', 50003),
                         video_addr = None, audio_addr = None\<rparr>),
            (''bob'', \<lparr>tcp_socket = 2, address = (''10.0.0.2'', 50002),
                       video_addr = Some [JStr ''10.0.0.2'', JInt 6002],
                       audio_addr = None\<rparr>)],
         presenter = None, shared_files = []\<rparr>
     = Inr (\<lparr>clients =
              [(''Alice'', \<lparr>tcp_socket = 3, address = (''10.0.0.3'', 50003),
                            video_addr = None, audio_addr = None\<rparr>),
               (''bob'', \<lparr>tcp_socket = 2, address = (''10.0.0.2'', 50002),
                          video_addr = Some [JStr ''10.0.0.2'', JInt 6002],
                          audio_addr = None\<rparr>)],
             presenter = None,
             shared_files =
               [(JStr ''X1'', \<lparr>filename = JStr ''a.txt'', fsize = JInt 2, fdata = JStr ''aGk='',
                               uploader = ''bob'', ftimestamp = ''2024-01-02 12:00:00''\<rparr>)]\<rparr>,
            [(3, JObj [(''type'', JStr ''file_available''), (''file_id'', JStr ''X1''),
                       (''filename'', JStr ''a.txt''), (''size'', JInt 2),
                       (''uploader'', JStr ''bob'')]),
             (2, JObj [(''type'', JStr ''file_available''), (''file_id'', JStr ''X1''),
                       (''filename'', JStr ''a.txt''), (''size'', JInt 2),
                       (''uploader'', JStr ''bob'')])])
   \<and> process_message ascii_lib noon ''Alice''
       (JObj [(''type'', JStr ''file_download''), (''file_id'', JStr ''X1'')])
       \<lparr>clients =
           [(''Alice'', \<lparr>tcp_socket = 3, address = (''10.0.0.3'', 50003),
                         video_addr = None, audio_addr = None\<rparr>),
            (''bob'', \<lparr>tcp_socket = 2, address = (''10.0.0.2'', 50002),
                       video_addr = Some [JStr ''10.0.0.2'', JInt 6002],
                       audio_addr = None\<rparr>)],
         presenter = None,
         shared_files =
           [(JStr ''X1'', \<lparr>filename = JStr ''a.txt'', fsize = JInt 2, fdata = JStr ''aGk='',
                           uploader = ''bob'', ftimestamp = ''2024-01-02 12:00:00''\<rparr>)]\<rparr>
     = Inr (\<lparr>clients =
              [(''Alice'', \<lparr>tcp_socket = 3, address = (''10.0.0.3'', 50003),
                            video_addr = None, audio_addr = None\<rparr>),
               (''bob'', \<lparr>tcp_socket = 2, address = (''10.0.0.2'', 50002),
                          video_addr = Some [JStr ''10.0.0.2'', JInt 6002],
                          audio_addr = None\<rparr>)],
             presenter = None,
             shared_files =
               [(JStr ''X1'', \<lparr>filename = JStr ''a.txt'', fsize = JInt 2, fdata = JStr ''aGk='',
                               uploader = ''bob'', ftimestamp = ''2024-01-02 12:00:00''\<rparr>)]\<rparr>,
            [(3, JObj [(''type'', JStr ''file_data''), (''file_id'', JStr ''X1''),
                       (''filename'', JStr ''a.txt''), (''size'', JInt 2),
                       (''data'', JStr ''aGk='')])])"
  by (simp add: registered_on_def handle_client_register_def alice_and_bob_def
      process_message_def on_file_upload_def on_file_download_def broadcast_message_def
      send_to_user_def file_available_def file_data_def Let_def noon_def
      strftime_Ymd_HMS_def strftime_HMS_def pad2_def pad4_def digit_char_def)

text \<open>The theorem for an upload of \<^verbatim>\<open>Alice\<close> and a download of \<^verbatim>\<open>bob\<close>.\<close>

theorem file_round_trip_witness:
  "hashable (JStr ''X1'') \<and> registered_on alice_and_bob ''bob'' 2
   \<and> (\<exists>s'. process_message ascii_lib noon ''Alice''
              (JObj [(''type'', JStr ''file_upload''), (''file_id'', JStr ''X1''),
                     (''filename'', JStr ''a.txt''), (''size'', JInt 2), (''data'', JStr ''aGk='')])
              alice_and_bob
            = Inr (s', [(1, JObj [(''type'', JStr ''file_available''), (''file_id'', JStr ''X1''),
                                  (''filename'', JStr ''a.txt''), (''size'', JInt 2),
                                  (''uploader'', JStr ''Alice'')]),
                        (2, JObj [(''type'', JStr ''file_available''), (''file_id'', JStr ''X1''),
                                  (''filename'', JStr ''a.txt''), (''size'', JInt 2),
                                  (''uploader'', JStr ''Alice'')])])
          \<and> process_message ascii_lib noon ''bob''
              (JObj [(''type'', JStr ''file_download''), (''file_id'', JStr ''X1'')]) s'
            = Inr (s', [(2, JObj [(''type'', JStr ''file_data''), (''file_id'', JStr ''X1''),
                                  (''filename'', JStr ''a.txt''), (''size'', JInt 2),
                                  (''data'', JStr ''aGk='')])]))"
proof -
  have c: "registered_on alice_and_bob ''bob'' 2"
    by (simp add: alice_and_bob_def registered_on_def)
  have "\<exists>s'. process_message ascii_lib noon ''Alice''
              (JObj [(''type'', JStr ''file_upload''), (''file_id'', JStr ''X1''),
                     (''filename'', JStr ''a.txt''), (''size'', JInt 2), (''data'', JStr ''aGk='')])
              alice_and_bob
            = Inr (s', [(1, JObj [(''type'', JStr ''file_available''), (''file_id'', JStr ''X1''),
                                  (''filename'', JStr ''a.txt''), (''size'', JInt 2),
                                  (''uploader'', JStr ''Alice'')]),
                        (2, JObj [(''type'', JStr ''file_available''), (''file_id'', JStr ''X1''),
                                  (''filename'', JStr ''a.txt''), (''size'', JInt 2),
                                  (''uploader'', JStr ''Alice'')])])
          \<and> process_message ascii_lib noon ''bob''
              (JObj [(''type'', JStr ''file_download''), (''file_id'', JStr ''X1'')]) s'
            = Inr (s', [(2, JObj [(''type'', JStr ''file_data''), (''file_id'', JStr ''X1''),
                                  (''filename'', JStr ''a.txt''), (''size'', JInt 2),
                                  (''data'', JStr ''aGk='')])])"
    using file_round_trip [where up =
        "[(''type'', JStr ''file_upload''), (''file_id'', JStr ''X1''),
          (''filename'', JStr ''a.txt''), (''size'', JInt 2), (''data'', JStr ''aGk='')]"
        and file_id = "JStr ''X1''" and name = "JStr ''a.txt''" and sz = "JInt 2"
        and dat = "JStr ''aGk=''"
        and down = "[(''type'', JStr ''file_download''), (''file_id'', JStr ''X1'')]"
        and s = alice_and_bob and requester = "''bob''" and client_socket = 2
        and lib = ascii_lib and clock = noon and sender = "''Alice''" and clock' = noon,
        OF _ _ _ _ _ _ _ _ c]
    by (simp add: alice_and_bob_def) blast
  with c show ?thesis by simp
qed

subsection \<open>Presenter slot\<close>

text \<open>
  Claim C1, as the code has it. The \<^verbatim>\<open>start_presentation\<close> branch runs under
  \<^verbatim>\<open>presenter_lock\<close>, so two requests are served one after the other. Let \<open>u1\<close> and \<open>u2\<close> be
  distinct names, each registered on the socket of the handler that asks, and let the request
  of \<open>u1\<close> be served first (the other order is the same statement with the names exchanged).
  If the slot is empty, the request of \<open>u1\<close> fills it, \<^verbatim>\<open>presentation_started\<close> naming \<open>u1\<close> is
  written to every client and \<^verbatim>\<open>presentation_control\<close> with the status \<^verbatim>\<open>started\<close> to the socket
  of \<open>u1\<close>; if the slot holds \<open>q\<close>, the state is unchanged and the socket of \<open>u1\<close> gets one
  \<^verbatim>\<open>presentation_control\<close> with the status \<^verbatim>\<open>denied\<close> and the message that \<open>q\<close> is currently
  presenting. In both cases the slot then holds some \<open>p\<close>, and the request of \<open>u2\<close> leaves the
  state unchanged and produces exactly one write: the \<^verbatim>\<open>denied\<close> response naming \<open>p\<close>, on the
  socket of \<open>u2\<close>. So at most one of the two requests changes the slot and nothing is
  broadcast for a denied one.
\<close>

theorem presenter_exclusivity:
  assumes "u1 \<noteq> u2"
    and "registered_on s u1 sock1"
    and "registered_on s u2 sock2"
    and "map_of m1 ''type'' = Some (JStr ''start_presentation'')"
    and "map_of m2 ''type'' = Some (JStr ''start_presentation'')"
  shows "\<exists>s1 out1 p.
           process_message lib clock u1 (JObj m1) s = Inr (s1, out1)
         \<and> (case presenter s of
               None \<Rightarrow> s1 = s\<lparr>presenter := Some u1\<rparr>
                 \<and> out1 = map (\<lambda>(name, info).
                                 (tcp_socket info,
                                  JObj [(''type'', JStr ''presentation_started''),
                                        (''username'', JStr u1)]))
                            (clients s)
                          @ [(sock1, JObj [(''type'', JStr ''presentation_control''),
                                           (''status'', JStr ''started'')])]
             | Some q \<Rightarrow> s1 = s
                 \<and> out1 = [(sock1, JObj [(''type'', JStr ''presentation_control''),
                                          (''status'', JStr ''denied''),
                                          (''message'', JStr (q @ '' is currently presenting''))])])
         \<and> presenter s1 = Some p
         \<and> process_message lib clock' u2 (JObj m2) s1 =
             Inr (s1, [(sock2, JObj [(''type'', JStr ''presentation_control''),
                                     (''status'', JStr ''denied''),
                                     (''message'', JStr (p @ '' is currently presenting''))])])"
proof -
  from assms(2) obtain i1 where i1: "map_of (clients s) u1 = Some i1" "tcp_socket i1 = sock1"
    by (auto simp: registered_on_def split: option.splits)
  from assms(3) obtain i2 where i2: "map_of (clients s) u2 = Some i2" "tcp_socket i2 = sock2"
    by (auto simp: registered_on_def split: option.splits)
  show ?thesis
  proof (cases "presenter s")
    case None
    let ?s1 = "s\<lparr>presenter := Some u1\<rparr>"
    have a: "process_message lib clock u1 (JObj m1) s =
               Inr (?s1, map (\<lambda>(name, info).
                                 (tcp_socket info,
                                  JObj [(''type'', JStr ''presentation_started''),
                                        (''username'', JStr u1)]))
                            (clients s)
                          @ [(sock1, JObj [(''type'', JStr ''presentation_control''),
                                           (''status'', JStr ''started'')])])"
      using None i1 assms(4) unfolding process_message_JObj Let_def
      by (simp add: on_start_presentation_def Let_def broadcast_message_def send_to_user_def
          case_prod_unfold presentation_started_def presentation_control_started_def)
    have b: "process_message lib clock' u2 (JObj m2) ?s1 =
               Inr (?s1, [(sock2, JObj [(''type'', JStr ''presentation_control''),
                                     (''status'', JStr ''denied''),
                                     (''message'', JStr (u1 @ '' is currently presenting''))])])"
      using i2 assms(5) unfolding process_message_JObj Let_def
      by (simp add: on_start_presentation_def send_to_user_def presentation_control_denied_def)
    from a b None show ?thesis by simp
  next
    case (Some q)
    have a: "process_message lib clock u1 (JObj m1) s =
               Inr (s, [(sock1, JObj [(''type'', JStr ''presentation_control''),
                                          (''status'', JStr ''denied''),
                                          (''message'', JStr (q @ '' is currently presenting''))])])"
      using Some i1 assms(4) unfolding process_message_JObj Let_def
      by (simp add: on_start_presentation_def send_to_user_def presentation_control_denied_def)
    have b: "process_message lib clock' u2 (JObj m2) s =
               Inr (s, [(sock2, JObj [(''type'', JStr ''presentation_control''),
                                     (''status'', JStr ''denied''),
                                     (''message'', JStr (q @ '' is currently presenting''))])])"
      using Some i2 assms(5) unfolding process_message_JObj Let_def
      by (simp add: on_start_presentation_def send_to_user_def presentation_control_denied_def)
    from a b Some show ?thesis by simp
  qed
qed

text \<open>
  The claim as worded fails for a request of a handler whose name has been registered again
  on another connection. \<^verbatim>\<open>Alice\<close> is registered on socket 1; a second connection registers
  \<^verbatim>\<open>Alice\<close> on socket 3; \<^verbatim>\<open>bob\<close> starts to present; the handler of socket 1 then serves a
  \<^verbatim>\<open>start_presentation\<close> of \<^verbatim>\<open>Alice\<close>. The \<^verbatim>\<open>denied\<close> response is written to socket 3, and the
  connection that asked receives nothing.
\<close>

theorem presenter_exclusivity_counterexample:
  "registered_on alice_and_bob ''Alice'' 1
   \<and> fst (handle_client_register 3 (''10.0.0.3'', 50003) ''Alice'' alice_and_bob)
     = \<lparr>clients =
           [(''Alice'', \<lparr>tcp_socket = 3, address = (''10.0.0.3'', 50003),
                         video_addr = None, audio_addr = None\<rparr>),
            (''bob'', \<lparr>tcp_socket = 2, address = (''10.0.0.2'', 50002),
                       video_addr = Some [JStr ''10.0.0.2'', JInt 6002],
                       audio_addr = None\<rparr>)],
         presenter = None, shared_files = []\<rparr>
   \<and> process_message ascii_lib noon ''bob'' (JObj [(''type'', JStr ''start_presentation'')])
       \<lparr>clients =
           [(''Alice'', \<lparr>tcp_socket = 3, address = (''10.0.0.3'', 50003),
                         video_addr = None, audio_addr = None\<rparr>),
            (''bob'', \<lparr>tcp_socket = 2, address = (''10.0.0.2'', 50002),
                       video_addr = Some [JStr ''10.0.0.2'', JInt 6002],
                       audio_addr = None\<rparr>)],
         presenter = None, shared_files = []\<rparr>
     = Inr (\<lparr>clients =
              [(''Alice'', \<lparr>tcp_socket = 3, address = (''10.0.0.3'', 50003),
                            video_addr = None, audio_addr = None\<rparr>),
               (''bob'', \<lparr>tcp_socket = 2, address = (''10.0.0.2'', 50002),
                          video_addr = Some [JStr ''10.0.0.2'', JInt 6002],
                          audio_addr = None\<rparr>)],
             presenter = Some ''bob'', shared_files = []\<rparr>,
            [(3, JObj [(''type'', JStr ''presentation_started''), (''username'', JStr ''bob'')]),
             (2, JObj [(''type'', JStr ''presentation_started''), (''username'', JStr ''bob'')]),
             (2, JObj [(''type'', JStr ''presentation_control''), (''status'', JStr ''started'')])])
   \<and> process_message ascii_lib noon ''Alice'' (JObj [(''type'', JStr ''start_presentation'')])
       \<lparr>clients =
           [(''Alice'', \<lparr>tcp_socket = 3, address = (''10.0.0.3'', 50003),
                         video_addr = None, audio_addr = None\<rparr>),
            (''bob'', \<lparr>tcp_socket = 2, address = (''10.0.0.2'', 50002),
                       video_addr = Some [JStr ''10.0.0.2'', JInt 6002],
                       audio_addr = None\<rparr>)],
         presenter = Some ''bob'', shared_files = []\<rparr>
     = Inr (\<lparr>clients =
              [(''Alice'', \<lparr>tcp_socket = 3, address = (''10.0.0.3'', 50003),
                            video_addr = None, audio_addr = None\<rparr>),
               (''bob'', \<lparr>tcp_socket = 2, address = (''10.0.0.2'', 50002),
                          video_addr = Some [JStr ''10.0.0.2'', JInt 6002],
                          audio_addr = None\<rparr>)],
             presenter = Some ''bob'', shared_files = []\<rparr>,
            [(3, JObj [(''type'', JStr ''presentation_control''), (''status'', JStr ''denied''),
                       (''message'', JStr ''bob is currently presenting'')])])"
  by (simp add: registered_on_def handle_client_register_def alice_and_bob_def
      process_message_def on_start_presentation_def broadcast_message_def send_to_user_def
      presentation_started_def presentation_control_started_def presentation_control_denied_def
      Let_def)

text \<open>The theorem on the two-client registry: \<open>bob\<close> asks first, then \<open>Alice\<close>.\<close>

theorem presenter_exclusivity_witness:
  "''bob'' \<noteq> ''Alice''
   \<and> registered_on alice_and_bob ''bob'' 2
   \<and> registered_on alice_and_bob ''Alice'' 1
   \<and> (\<exists>s1 out1. process_message ascii_lib noon ''bob''
                   (JObj [(''type'', JStr ''start_presentation'')]) alice_and_bob = Inr (s1, out1)
         \<and> presenter s1 = Some ''bob''
         \<and> process_message ascii_lib noon ''Alice''
             (JObj [(''type'', JStr ''start_presentation'')]) s1 =
             Inr (s1, [(1, JObj [(''type'', JStr ''presentation_control''),
                                 (''status'', JStr ''denied''),
                                 (''message'', JStr ''bob is currently presenting'')])]))"
proof -
  have a: "registered_on alice_and_bob ''Alice'' 1"
    and b: "registered_on alice_and_bob ''bob'' 2"
    and p: "presenter alice_and_bob = None"
    by (simp_all add: alice_and_bob_def registered_on_def)
  have n: "''bob'' \<noteq> ''Alice''" by simp
  have t: "map_of [(''type'', JStr ''start_presentation'')] ''type''
             = Some (JStr ''start_presentation'')" by simp
  from presenter_exclusivity [OF n b a t t, of ascii_lib noon noon] p
  have "\<exists>s1 out1. process_message ascii_lib noon ''bob''
                   (JObj [(''type'', JStr ''start_presentation'')]) alice_and_bob = Inr (s1, out1)
         \<and> presenter s1 = Some ''bob''
         \<and> process_message ascii_lib noon ''Alice''
             (JObj [(''type'', JStr ''start_presentation'')]) s1 =
             Inr (s1, [(1, JObj [(''type'', JStr ''presentation_control''),
                                 (''status'', JStr ''denied''),
                                 (''message'', JStr ''bob is currently presenting'')])])"
    by auto
  with n a b show ?thesis by simp
qed

subsection \<open>Registration\<close>




subsection \<open>Private chat\<close>






subsection \<open>Media relay\<close>

lemma fan_out_concat:
  "concat (map (\<lambda>(client_name, client_info).
             (case f client_info of
                None \<Rightarrow> []
              | Some a \<Rightarrow> if client_name \<noteq> username \<and> a \<noteq> [] then [(a, data)] else []))
             cs)
   = map (\<lambda>(client_name, client_info). (the (f client_info), data))
       (filter (\<lambda>(client_name, client_info).
                  client_name \<noteq> username \<and> f client_info \<noteq> None \<and> f client_info \<noteq> Some [])
          cs)"
  by (induction cs) (auto split: option.splits)

text \<open>
  Claim C9 (media fan-out). A datagram is well formed when it is \<^verbatim>\<open>struct.pack('I', len(name))\<close>,
  then the bytes \<open>name_bytes\<close> of the sender's name, which decode to \<open>sender\<close>, then any payload.
  For such a datagram \<^verbatim>\<open>handle_video_stream\<close> calls \<^verbatim>\<open>sendto\<close> once for every entry of the
  registry whose name is not \<open>sender\<close> and whose \<^verbatim>\<open>video_addr\<close> is registered (neither \<^verbatim>\<open>None\<close>
  nor the empty tuple), in the order of the registry, each time with the endpoint of that
  entry and the whole datagram as it was received; no call is made for the entry of
  \<open>sender\<close>. \<^verbatim>\<open>handle_audio_stream\<close> does the same with \<^verbatim>\<open>audio_addr\<close>. A datagram of fewer
  than 4 bytes, or of fewer bytes than 4 plus the length that its first 4 bytes declare, is
  dropped by both: no exception and no \<^verbatim>\<open>sendto\<close>.
\<close>

theorem media_fan_out:
  assumes "pack_I bo (length name_bytes) = Some hdr"
    and "decode name_bytes = Some sender"
    and "data = hdr @ name_bytes @ payload"
  shows "handle_video_stream bo decode s data =
           Forwarded (map (\<lambda>(client_name, client_info). (the (video_addr client_info), data))
             (filter (\<lambda>(client_name, client_info).
                        client_name \<noteq> sender \<and> video_addr client_info \<noteq> None
                        \<and> video_addr client_info \<noteq> Some [])
                (clients s)))
       \<and> handle_audio_stream bo decode s data =
           Forwarded (map (\<lambda>(client_name, client_info). (the (audio_addr client_info), data))
             (filter (\<lambda>(client_name, client_info).
                        client_name \<noteq> sender \<and> audio_addr client_info \<noteq> None
                        \<and> audio_addr client_info \<noteq> Some [])
                (clients s)))
       \<and> (\<forall>d. length d < 4 \<longrightarrow>
              handle_video_stream bo decode s d = Dropped
            \<and> handle_audio_stream bo decode s d = Dropped)
       \<and> (\<forall>d n. unpack_I bo (take 4 d) = Some n \<longrightarrow> length d < 4 + n \<longrightarrow>
              handle_video_stream bo decode s d = Dropped
            \<and> handle_audio_stream bo decode s d = Dropped)"
proof -
  have len: "length hdr = 4" using unpack_pack [OF assms(1)] by simp
  have hd: "take 4 data = hdr" using len assms(3) by simp
  have un: "unpack_I bo (take 4 data) = Some (length name_bytes)"
    using unpack_pack [OF assms(1)] hd by simp
  have nm: "take (length name_bytes) (drop 4 data) = name_bytes"
    using len assms(3) by simp
  have ln: "\<not> length data < 4" "\<not> length data < 4 + length name_bytes"
    using len assms(3) by simp_all
  have v: "handle_video_stream bo decode s data =
           Forwarded (map (\<lambda>(client_name, client_info). (the (video_addr client_info), data))
             (filter (\<lambda>(client_name, client_info).
                        client_name \<noteq> sender \<and> video_addr client_info \<noteq> None
                        \<and> video_addr client_info \<noteq> Some [])
                (clients s)))"
    unfolding handle_video_stream_def using ln
    by (simp add: un nm assms(2) fan_out_concat)
  have a: "handle_audio_stream bo decode s data =
           Forwarded (map (\<lambda>(client_name, client_info). (the (audio_addr client_info), data))
             (filter (\<lambda>(client_name, client_info).
                        client_name \<noteq> sender \<and> audio_addr client_info \<noteq> None
                        \<and> audio_addr client_info \<noteq> Some [])
                (clients s)))"
    unfolding handle_audio_stream_def using ln
    by (simp add: un nm assms(2) fan_out_concat)
  have short: "\<forall>d. length d < 4 \<longrightarrow>
              handle_video_stream bo decode s d = Dropped
            \<and> handle_audio_stream bo decode s d = Dropped"
    by (simp add: handle_video_stream_def handle_audio_stream_def)
  have cut: "\<forall>d n. unpack_I bo (take 4 d) = Some n \<longrightarrow> length d < 4 + n \<longrightarrow>
              handle_video_stream bo decode s d = Dropped
            \<and> handle_audio_stream bo decode s d = Dropped"
    by (simp add: handle_video_stream_def handle_audio_stream_def)
  from v a short cut show ?thesis by (intro conjI)
qed

text \<open>The theorem for a datagram of \<^verbatim>\<open>bob\<close> with two bytes of payload: it goes to the video
  and audio endpoints of \<^verbatim>\<open>Alice\<close> only; two cut datagrams are dropped.\<close>

theorem media_fan_out_witness:
  "handle_video_stream Little ascii_decode alice_and_bob [3, 0, 0, 0, 98, 111, 98, 1, 2] =
     Forwarded [([JStr ''10.0.0.1'', JInt 6001], [3, 0, 0, 0, 98, 111, 98, 1, 2])]
   \<and> handle_audio_stream Little ascii_decode alice_and_bob [3, 0, 0, 0, 98, 111, 98, 1, 2] =
     Forwarded [([JStr ''10.0.0.1'', JInt 7001], [3, 0, 0, 0, 98, 111, 98, 1, 2])]
   \<and> handle_video_stream Little ascii_decode alice_and_bob [3, 0] = Dropped
   \<and> handle_audio_stream Little ascii_decode alice_and_bob [3, 0, 0, 0, 98, 111] = Dropped"
proof -
  have p: "pack_I Little (length [98, 111, 98 :: byte]) = Some [3, 0, 0, 0]"
    by (simp add: pack_I_def le_bytes_def)
  have d: "ascii_decode [98, 111, 98] = Some ''bob''"
    by code_simp
  have e: "[3, 0, 0, 0, 98, 111, 98, 1, 2] = [3, 0, 0, 0] @ [98, 111, 98] @ [1, 2 :: byte]"
    by simp
  have u: "unpack_I Little (take 4 [3, 0, 0, 0, 98, 111 :: byte]) = Some 3"
    by (simp add: unpack_I_def)
  note w = media_fan_out [where bo = Little and decode = ascii_decode
      and name_bytes = "[98, 111, 98]" and s = alice_and_bob, OF p d e]
  have one: "handle_video_stream Little ascii_decode alice_and_bob
                [3, 0, 0, 0, 98, 111, 98, 1, 2] =
     Forwarded [([JStr ''10.0.0.1'', JInt 6001], [3, 0, 0, 0, 98, 111, 98, 1, 2])]"
    using w [THEN conjunct1] by (simp add: alice_and_bob_def)
  have two: "handle_audio_stream Little ascii_decode alice_and_bob
                [3, 0, 0, 0, 98, 111, 98, 1, 2] =
     Forwarded [([JStr ''10.0.0.1'', JInt 7001], [3, 0, 0, 0, 98, 111, 98, 1, 2])]"
    using w [THEN conjunct2, THEN conjunct1] by (simp add: alice_and_bob_def)
  have three: "handle_video_stream Little ascii_decode alice_and_bob [3, 0] = Dropped"
    using w [THEN conjunct2, THEN conjunct2, THEN conjunct1] by simp
  have four: "handle_audio_stream Little ascii_decode alice_and_bob [3, 0, 0, 0, 98, 111]
                = Dropped"
    using w [THEN conjunct2, THEN conjunct2, THEN conjunct2] u by simp
  from one two three four show ?thesis by simp
qed

subsection \<open>Presenter liveness and forced stop\<close>

text \<open>What a call of \<^verbatim>\<open>process_message\<close> can change of the registry and of the presenter
  slot, and that it writes no \<^verbatim>\<open>presentation_stopped\<close> for another name than the caller's.\<close>

lemma broadcast_message_snd: "x \<in> set (broadcast_message s msg ex) \<Longrightarrow> snd x = msg"
  by (auto simp: broadcast_message_def)

lemma send_to_user_snd: "x \<in> set (send_to_user s u msg) \<Longrightarrow> snd x = msg"
  by (auto simp: send_to_user_def split: option.splits)

lemma on_video_register_frame:
  assumes "on_video_register u m s = Inr (s', out)"
  shows "\<forall>k. map_option tcp_socket (map_of (clients s') k)
               = map_option tcp_socket (map_of (clients s) k)"
    and "presenter s' = presenter s" and "out = []"
  using assms
  by (auto simp: on_video_register_def update_conv' split: option.splits sum.splits if_splits)

lemma on_audio_register_frame:
  assumes "on_audio_register u m s = Inr (s', out)"
  shows "\<forall>k. map_option tcp_socket (map_of (clients s') k)
               = map_option tcp_socket (map_of (clients s) k)"
    and "presenter s' = presenter s" and "out = []"
  using assms
  by (auto simp: on_audio_register_def update_conv' split: option.splits sum.splits if_splits)

lemma on_chat_frame:
  assumes "on_chat clock u m s = Inr (s', out)"
  shows "s' = s" and "\<forall>x \<in> set out. snd x \<noteq> presentation_stopped w"
  using assms
  by (auto simp: on_chat_def chat_frame_def presentation_stopped_def
      split: option.splits dest!: broadcast_message_snd)

lemma on_screen_frame_frame:
  assumes "on_screen_frame u m s = Inr (s', out)"
  shows "s' = s" and "\<forall>x \<in> set out. snd x \<noteq> presentation_stopped w"
  using assms
  by (auto simp: on_screen_frame_def screen_frame_def presentation_stopped_def
      split: option.splits if_splits dest!: broadcast_message_snd)

lemma on_file_upload_frame:
  assumes "on_file_upload clock u m s = Inr (s', out)"
  shows "clients s' = clients s" and "presenter s' = presenter s"
    and "\<forall>x \<in> set out. snd x \<noteq> presentation_stopped w"
  using assms
  by (auto simp: on_file_upload_def Let_def file_available_def presentation_stopped_def
      split: option.splits if_splits dest!: broadcast_message_snd)

lemma on_file_download_frame:
  assumes "on_file_download u m s = Inr (s', out)"
  shows "s' = s" and "\<forall>x \<in> set out. snd x \<noteq> presentation_stopped w"
  using assms
  by (auto simp: on_file_download_def file_data_def presentation_stopped_def
      split: option.splits if_splits dest!: send_to_user_snd)

lemma on_start_presentation_frame:
  assumes "on_start_presentation u s = Inr (s', out)"
  shows "clients s' = clients s"
    and "presenter s' = presenter s \<or> (presenter s = None \<and> presenter s' = Some u)"
    and "\<forall>x \<in> set out. snd x \<noteq> presentation_stopped w"
  using assms
  by (auto simp: on_start_presentation_def Let_def presentation_started_def
      presentation_control_started_def presentation_control_denied_def presentation_stopped_def
      split: option.splits dest!: broadcast_message_snd send_to_user_snd)

lemma on_stop_presentation_frame:
  assumes "on_stop_presentation u s = Inr (s', out)"
  shows "clients s' = clients s"
    and "presenter s' = presenter s \<or> (presenter s = Some u \<and> presenter s' = None)"
    and "w \<noteq> u \<longrightarrow> (\<forall>x \<in> set out. snd x \<noteq> presentation_stopped w)"
  using assms
  by (auto simp: on_stop_presentation_def Let_def presentation_stopped_def
      split: if_splits dest!: broadcast_message_snd)

lemma on_private_chat_frame:
  assumes "on_private_chat lib clock u m s = Inr (s', out)"
  shows "s' = s" and "\<forall>x \<in> set out. snd x \<noteq> presentation_stopped w"
  using assms
  by (auto simp: on_private_chat_def Let_def private_chat_frame_def not_online_def
      presentation_stopped_def
      split: option.splits sum.splits if_splits dest!: broadcast_message_snd send_to_user_snd)

lemma process_message_cases:
  assumes "process_message lib clock u (JObj m) s = r"
  obtains "on_chat clock u m s = r"
    | "on_video_register u m s = r"
    | "on_audio_register u m s = r"
    | "on_start_presentation u s = r"
    | "on_stop_presentation u s = r"
    | "on_screen_frame u m s = r"
    | "on_private_chat lib clock u m s = r"
    | "on_file_upload clock u m s = r"
    | "on_file_download u m s = r"
    | "r = Inr (s, [])"
  using assms unfolding process_message_JObj Let_def by (auto split: if_splits)

lemma process_message_frame:
  assumes "process_message lib clock u msg s = Inr (s', out)"
  shows "\<forall>k. map_option tcp_socket (map_of (clients s') k)
               = map_option tcp_socket (map_of (clients s) k)"
    and "presenter s' = presenter s \<or> (presenter s = None \<and> presenter s' = Some u)
         \<or> (presenter s = Some u \<and> presenter s' = None)"
    and "w \<noteq> u \<longrightarrow> (\<forall>x \<in> set out. snd x \<noteq> presentation_stopped w)"
proof -
  obtain m where msg: "msg = JObj m"
    using assms by (cases msg) (simp_all add: process_message_def)
  from assms [unfolded msg]
  have "(\<forall>k. map_option tcp_socket (map_of (clients s') k)
               = map_option tcp_socket (map_of (clients s) k))
      \<and> (presenter s' = presenter s \<or> (presenter s = None \<and> presenter s' = Some u)
         \<or> (presenter s = Some u \<and> presenter s' = None))
      \<and> (w \<noteq> u \<longrightarrow> (\<forall>x \<in> set out. snd x \<noteq> presentation_stopped w))"
  proof (cases rule: process_message_cases)
    case 1
    from on_chat_frame(1) [OF 1] on_chat_frame(2) [OF 1, of w] show ?thesis by simp
  next
    case 2
    from on_video_register_frame [OF 2] show ?thesis by simp
  next
    case 3
    from on_audio_register_frame [OF 3] show ?thesis by simp
  next
    case 4
    from on_start_presentation_frame(1,2) [OF 4] on_start_presentation_frame(3) [OF 4, of w]
    show ?thesis by auto
  next
    case 5
    from on_stop_presentation_frame(1,2) [OF 5] on_stop_presentation_frame(3) [OF 5, of w]
    show ?thesis by auto
  next
    case 6
    from on_screen_frame_frame(1) [OF 6] on_screen_frame_frame(2) [OF 6, of w]
    show ?thesis by simp
  next
    case 7
    from on_private_chat_frame(1) [OF 7] on_private_chat_frame(2) [OF 7, of w]
    show ?thesis by simp
  next
    case 8
    from on_file_upload_frame(1,2) [OF 8] on_file_upload_frame(3) [OF 8, of w]
    show ?thesis by simp
  next
    case 9
    from on_file_download_frame(1) [OF 9] on_file_download_frame(2) [OF 9, of w]
    show ?thesis by simp
  next
    case 10
    then show ?thesis by simp
  qed
  then show "\<forall>k. map_option tcp_socket (map_of (clients s') k)
               = map_option tcp_socket (map_of (clients s) k)"
    and "presenter s' = presenter s \<or> (presenter s = None \<and> presenter s' = Some u)
         \<or> (presenter s = Some u \<and> presenter s' = None)"
    and "w \<noteq> u \<longrightarrow> (\<forall>x \<in> set out. snd x \<noteq> presentation_stopped w)"
    by blast+
qed

lemma process_message_raised:
  assumes "process_message lib clock u msg s = Inl (e, out)"
  shows "\<forall>x \<in> set out. snd x \<noteq> presentation_stopped w"
proof (cases msg)
  case (JObj m)
  from assms [unfolded JObj] show ?thesis
  proof (cases rule: process_message_cases)
    case 1
    then show ?thesis by (auto simp: on_chat_def split: option.splits)
  next
    case 2
    then show ?thesis
      by (auto simp: on_video_register_def split: option.splits sum.splits)
  next
    case 3
    then show ?thesis
      by (auto simp: on_audio_register_def split: option.splits sum.splits)
  next
    case 4
    then show ?thesis
      by (auto simp: on_start_presentation_def Let_def split: option.splits)
  next
    case 5
    then show ?thesis
      by (auto simp: on_stop_presentation_def Let_def split: if_splits)
  next
    case 6
    then show ?thesis
      by (auto simp: on_screen_frame_def split: option.splits if_splits)
  next
    case 7
    then show ?thesis
      by (auto simp: on_private_chat_def Let_def private_chat_frame_def
          presentation_stopped_def
          split: option.splits sum.splits if_splits dest!: broadcast_message_snd)
  next
    case 8
    then show ?thesis
      by (auto simp: on_file_upload_def Let_def split: option.splits if_splits)
  next
    case 9
    then show ?thesis
      by (auto simp: on_file_download_def split: option.splits if_splits)
  next
    case 10
    then show ?thesis by simp
  qed
qed (use assms in \<open>simp_all add: process_message_def\<close>)

text \<open>The ways a turn of the loop ends, and the agreement of the registry with the handler
  threads: it holds at the start, it gives what the presenter slot holds, and every step that
  registers a fresh identity keeps it.\<close>

lemma handle_client_turn_cases:
  obtains (goes_on) m s' out where "msg = Some m"
      "process_message lib clock u m s = Inr (s', out)"
      "handle_client_turn lib clock u msg s = Goes_on s' out"
    | (closed) "handle_client_turn lib clock u msg s = Ends []"
    | (raised) m e out where "msg = Some m"
      "process_message lib clock u m s = Inl (e, out)"
      "handle_client_turn lib clock u msg s = Ends out"
proof (cases msg)
  case None
  then have "handle_client_turn lib clock u msg s = Ends []"
    by (simp add: handle_client_turn_def)
  then show ?thesis by (rule closed)
next
  case (Some m)
  show ?thesis
  proof (cases "truthy m")
    case False
    with Some have "handle_client_turn lib clock u msg s = Ends []"
      by (simp add: handle_client_turn_def)
    then show ?thesis by (rule closed)
  next
    case True
    show ?thesis
    proof (cases "process_message lib clock u m s")
      case (Inl a)
      obtain e out where a: "a = (e, out)" by (cases a)
      with Inl Some True have "handle_client_turn lib clock u msg s = Ends out"
        by (simp add: handle_client_turn_def)
      with Some Inl a show ?thesis by (intro raised) simp_all
    next
      case (Inr b)
      obtain s' out where b: "b = (s', out)" by (cases b)
      with Inr Some True have "handle_client_turn lib clock u msg s = Goes_on s' out"
        by (simp add: handle_client_turn_def)
      with Some Inr b show ?thesis by (intro goes_on) simp_all
    qed
  qed
qed

lemma registered_on_cong:
  "map_option tcp_socket (map_of (clients s') u) = map_option tcp_socket (map_of (clients s) u)
     \<Longrightarrow> registered_on s' u sk = registered_on s u sk"
  by (auto simp: registered_on_def split: option.splits)

lemma registered_on_Some: "registered_on s u sk \<Longrightarrow> map_of (clients s) u \<noteq> None"
  by (auto simp: registered_on_def split: option.splits)

lemma ex_handler_update:
  assumes "\<exists>c0 h0. H c0 = Some h0 \<and> P h0" and "H c = Some h" and "P h \<Longrightarrow> P h'"
  shows "\<exists>c0 h0. (H(c \<mapsto> h')) c0 = Some h0 \<and> P h0"
proof -
  from assms(1) obtain c0 h0 where w: "H c0 = Some h0" "P h0" by blast
  show ?thesis
  proof (cases "c0 = c")
    case True
    with w assms(2) have "P h" by simp
    then have "P h'" by (rule assms(3))
    then have "(H(c \<mapsto> h')) c = Some h' \<and> P h'" by simp
    then show ?thesis by blast
  next
    case False
    with w have "(H(c \<mapsto> h')) c0 = Some h0 \<and> P h0" by simp
    then show ?thesis by blast
  qed
qed

lemma ex_handler_delete:
  assumes "\<exists>c0 h0. H c0 = Some h0 \<and> P h0" and "H c = Some h" and "\<not> P h"
  shows "\<exists>c0 h0. (H(c := None)) c0 = Some h0 \<and> P h0"
proof -
  from assms(1) obtain c0 h0 where w: "H c0 = Some h0" "P h0" by blast
  with assms(2,3) have "c0 \<noteq> c" by auto
  with w have "(H(c := None)) c0 = Some h0 \<and> P h0" by simp
  then show ?thesis by blast
qed

lemma consistentD:
  assumes "consistent sys"
  shows "\<And>c h. map_of (handlers sys) c = Some h \<Longrightarrow> h_username h \<noteq> []"
    and "\<And>c c' h h'. map_of (handlers sys) c = Some h \<Longrightarrow> map_of (handlers sys) c' = Some h'
           \<Longrightarrow> h_username h = h_username h' \<Longrightarrow> c = c'"
    and "\<And>c h. map_of (handlers sys) c = Some h \<Longrightarrow> h_phase h = Looping \<or> h_phase h = Leaving
           \<Longrightarrow> registered_on (srv sys) (h_username h) (h_socket h)"
    and "\<And>u. map_of (clients (srv sys)) u \<noteq> None \<Longrightarrow>
           \<exists>c h. map_of (handlers sys) c = Some h
                \<and> (h_username h = u \<and> (h_phase h = Looping \<or> h_phase h = Leaving))"
    and "\<And>p. presenter (srv sys) = Some p \<Longrightarrow>
           \<exists>c h. map_of (handlers sys) c = Some h
                \<and> (h_username h = p \<and> h_phase h \<noteq> Checked)"
  using assms unfolding consistent_def by blast+

lemma consistentI:
  assumes "\<And>c h. map_of (handlers sys) c = Some h \<Longrightarrow> h_username h \<noteq> []"
    and "\<And>c c' h h'. map_of (handlers sys) c = Some h \<Longrightarrow> map_of (handlers sys) c' = Some h'
           \<Longrightarrow> h_username h = h_username h' \<Longrightarrow> c = c'"
    and "\<And>c h. map_of (handlers sys) c = Some h \<Longrightarrow> h_phase h = Looping \<or> h_phase h = Leaving
           \<Longrightarrow> registered_on (srv sys) (h_username h) (h_socket h)"
    and "\<And>u. map_of (clients (srv sys)) u \<noteq> None \<Longrightarrow>
           \<exists>c h. map_of (handlers sys) c = Some h
                \<and> (h_username h = u \<and> (h_phase h = Looping \<or> h_phase h = Leaving))"
    and "\<And>p. presenter (srv sys) = Some p \<Longrightarrow>
           \<exists>c h. map_of (handlers sys) c = Some h
                \<and> (h_username h = p \<and> h_phase h \<noteq> Checked)"
  shows "consistent sys"
  unfolding consistent_def using assms by blast

lemma consistent_initial: "consistent initial"
  by (simp add: consistent_def initial_def)

lemma consistent_presenter_held:
  assumes "consistent sys"
  shows "presenter_held sys"
proof (cases "presenter (srv sys)")
  case None
  then show ?thesis by (simp add: presenter_held_def)
next
  case (Some p)
  from consistentD(5) [OF assms Some] obtain c h where
    h: "map_of (handlers sys) c = Some h" "h_username h = p" "h_phase h \<noteq> Checked"
    by blast
  from h(1) have mem: "(c, h) \<in> set (handlers sys)" by (rule map_of_SomeD)
  have "case h_phase h of
          Looping \<Rightarrow> registered_on (srv sys) p (h_socket h)
        | Leaving \<Rightarrow> registered_on (srv sys) p (h_socket h)
        | Deregistered \<Rightarrow> True
        | Checked \<Rightarrow> False"
    using consistentD(3) [OF assms h(1)] h(2,3) by (cases "h_phase h") simp_all
  with mem h(2) Some show ?thesis
    by (auto simp: presenter_held_def list_ex_iff)
qed

lemma consistent_register:
  assumes "consistent sys"
    and "map_of (handlers sys) c = None"
    and "username \<noteq> []"
    and "map_of (clients (srv sys)) username = None"
    and "\<And>c' h. map_of (handlers sys) c' = Some h \<Longrightarrow> h_username h \<noteq> username"
  shows "consistent
           (sys\<lparr>srv := fst (handle_client_register client_socket addr username (srv sys)),
                handlers := AList.update c
                  \<lparr>h_username = username, h_socket = client_socket, h_phase = Looping\<rparr>
                  (handlers sys)\<rparr>)"
    (is "consistent ?sys'")
proof (rule consistentI)
  note d = consistentD [OF assms(1)]
  let ?new = "\<lparr>h_username = username, h_socket = client_socket, h_phase = Looping\<rparr>"
  have H: "map_of (handlers ?sys') = (map_of (handlers sys))(c \<mapsto> ?new)"
    by (simp add: update_conv')
  let ?s' = "fst (handle_client_register client_socket addr username (srv sys))"
  have S: "srv ?sys' = ?s'" by simp
  have C: "map_of (clients ?s') =
             (map_of (clients (srv sys)))(username \<mapsto>
                \<lparr>tcp_socket = client_socket, address = addr,
                 video_addr = None, audio_addr = None\<rparr>)"
    by (simp add: handle_client_register_def Let_def update_conv')
  have P: "presenter ?s' = presenter (srv sys)"
    by (simp add: handle_client_register_def Let_def)
  have R: "\<And>u sk. u \<noteq> username \<Longrightarrow>
             registered_on ?s' u sk = registered_on (srv sys) u sk"
    by (rule registered_on_cong) (simp add: C)
  have Rn: "registered_on ?s' username client_socket"
    unfolding registered_on_def C by simp
  {
    fix c' h
    assume a: "map_of (handlers ?sys') c' = Some h"
    then have a': "((map_of (handlers sys))(c \<mapsto> ?new)) c' = Some h" unfolding H .
    show "h_username h \<noteq> []"
      using a' d(1) [of c' h] assms(3) by (cases "c' = c") auto
    assume ph: "h_phase h = Looping \<or> h_phase h = Leaving"
    show "registered_on (srv ?sys') (h_username h) (h_socket h)"
    proof (cases "c' = c")
      case True
      with a' have "h = ?new" by simp
      with Rn show ?thesis unfolding S by simp
    next
      case False
      with a' have old: "map_of (handlers sys) c' = Some h" by simp
      from assms(5) [OF old] have "h_username h \<noteq> username" .
      with d(3) [OF old ph] R [of "h_username h" "h_socket h"] show ?thesis
        unfolding S by simp
    qed
  }
  {
    fix c1 c2 h1 h2
    assume "map_of (handlers ?sys') c1 = Some h1" and "map_of (handlers ?sys') c2 = Some h2"
      and eq: "h_username h1 = h_username h2"
    then have a1: "((map_of (handlers sys))(c \<mapsto> ?new)) c1 = Some h1"
      and a2: "((map_of (handlers sys))(c \<mapsto> ?new)) c2 = Some h2"
      unfolding H by simp_all
    show "c1 = c2"
    proof (cases "c1 = c")
      case True
      with a1 have n1: "h_username h1 = username" by auto
      show ?thesis
      proof (cases "c2 = c")
        case True
        with \<open>c1 = c\<close> show ?thesis by simp
      next
        case False
        with a2 have "map_of (handlers sys) c2 = Some h2" by simp
        from assms(5) [OF this] n1 eq show ?thesis by simp
      qed
    next
      case False
      with a1 have o1: "map_of (handlers sys) c1 = Some h1" by simp
      show ?thesis
      proof (cases "c2 = c")
        case True
        with a2 have "h_username h2 = username" by auto
        with assms(5) [OF o1] eq show ?thesis by simp
      next
        case False
        with a2 have o2: "map_of (handlers sys) c2 = Some h2" by simp
        from o1 o2 eq show ?thesis by (rule d(2))
      qed
    qed
  }
  {
    fix u
    assume "map_of (clients (srv ?sys')) u \<noteq> None"
    then have a: "((map_of (clients (srv sys)))(username \<mapsto>
                \<lparr>tcp_socket = client_socket, address = addr,
                 video_addr = None, audio_addr = None\<rparr>)) u \<noteq> None"
      unfolding S C .
    show "\<exists>c' h. map_of (handlers ?sys') c' = Some h
            \<and> (h_username h = u \<and> (h_phase h = Looping \<or> h_phase h = Leaving))"
      unfolding H
    proof (cases "u = username")
      case True
      then have "((map_of (handlers sys))(c \<mapsto> ?new)) c = Some ?new
                 \<and> (h_username ?new = u \<and> (h_phase ?new = Looping \<or> h_phase ?new = Leaving))"
        by simp
      then show "\<exists>c' h. ((map_of (handlers sys))(c \<mapsto> ?new)) c' = Some h
            \<and> (h_username h = u \<and> (h_phase h = Looping \<or> h_phase h = Leaving))"
        by blast
    next
      case False
      with a have "map_of (clients (srv sys)) u \<noteq> None" by simp
      from d(4) [OF this] obtain c' h where w: "map_of (handlers sys) c' = Some h"
        "h_username h = u \<and> (h_phase h = Looping \<or> h_phase h = Leaving)" by blast
      with assms(2) have "c' \<noteq> c" by auto
      with w have "((map_of (handlers sys))(c \<mapsto> ?new)) c' = Some h
                 \<and> (h_username h = u \<and> (h_phase h = Looping \<or> h_phase h = Leaving))"
        by simp
      then show "\<exists>c' h. ((map_of (handlers sys))(c \<mapsto> ?new)) c' = Some h
            \<and> (h_username h = u \<and> (h_phase h = Looping \<or> h_phase h = Leaving))"
        by blast
    qed
  }
  {
    fix p
    assume "presenter (srv ?sys') = Some p"
    then have "presenter (srv sys) = Some p" unfolding S P .
    from d(5) [OF this] obtain c' h where w: "map_of (handlers sys) c' = Some h"
        "h_username h = p \<and> h_phase h \<noteq> Checked" by blast
    with assms(2) have "c' \<noteq> c" by auto
    with w have "((map_of (handlers sys))(c \<mapsto> ?new)) c' = Some h
                 \<and> (h_username h = p \<and> h_phase h \<noteq> Checked)"
      by simp
    then show "\<exists>c' h. map_of (handlers ?sys') c' = Some h
                 \<and> (h_username h = p \<and> h_phase h \<noteq> Checked)"
      unfolding H by blast
  }
qed

lemma old_handler:
  assumes "(H(c \<mapsto> h\<lparr>h_phase := X\<rparr>)) c' = Some k" and "H c = Some h"
  obtains k0 where "H c' = Some k0" "h_username k0 = h_username k" "h_socket k0 = h_socket k"
    "c' \<noteq> c \<Longrightarrow> k0 = k" "c' = c \<Longrightarrow> k0 = h \<and> h_phase k = X"
proof (cases "c' = c")
  case True
  with assms have "k = h\<lparr>h_phase := X\<rparr>" by simp
  with True assms(2) show ?thesis by (intro that [of h]) simp_all
next
  case False
  with assms(1) have "H c' = Some k" by simp
  with False show ?thesis by (intro that [of k]) simp_all
qed

lemma consistent_goes_on:
  assumes "consistent sys"
    and "map_of (handlers sys) c = Some h"
    and "h_phase h = Looping"
    and "process_message lib clock (h_username h) m (srv sys) = Inr (s', out)"
  shows "consistent (sys\<lparr>srv := s'\<rparr>)"
proof (rule consistentI)
  note d = consistentD [OF assms(1)]
  note f = process_message_frame(1,2) [OF assms(4)]
  have R: "\<And>u sk. registered_on s' u sk = registered_on (srv sys) u sk"
    by (rule registered_on_cong) (simp add: f(1))
  have N: "\<And>u. (map_of (clients s') u \<noteq> None) = (map_of (clients (srv sys)) u \<noteq> None)"
  proof -
    fix u
    from f(1) have "map_option tcp_socket (map_of (clients s') u)
                      = map_option tcp_socket (map_of (clients (srv sys)) u)" by simp
    then show "(map_of (clients s') u \<noteq> None) = (map_of (clients (srv sys)) u \<noteq> None)"
      by (cases "map_of (clients s') u"; cases "map_of (clients (srv sys)) u") simp_all
  qed
  {
    fix c' k
    assume a: "map_of (handlers (sys\<lparr>srv := s'\<rparr>)) c' = Some k"
    then have a': "map_of (handlers sys) c' = Some k" by simp
    from d(1) [OF a'] show "h_username k \<noteq> []" .
    assume "h_phase k = Looping \<or> h_phase k = Leaving"
    from d(3) [OF a' this] show "registered_on (srv (sys\<lparr>srv := s'\<rparr>)) (h_username k) (h_socket k)"
      by (simp add: R)
  }
  {
    fix c1 c2 h1 h2
    assume "map_of (handlers (sys\<lparr>srv := s'\<rparr>)) c1 = Some h1"
      and "map_of (handlers (sys\<lparr>srv := s'\<rparr>)) c2 = Some h2"
      and eq: "h_username h1 = h_username h2"
    then have o1: "map_of (handlers sys) c1 = Some h1"
      and o2: "map_of (handlers sys) c2 = Some h2" by simp_all
    from o1 o2 eq show "c1 = c2" by (rule d(2))
  }
  {
    fix u
    assume "map_of (clients (srv (sys\<lparr>srv := s'\<rparr>))) u \<noteq> None"
    then have "map_of (clients (srv sys)) u \<noteq> None" using N [of u] by simp
    from d(4) [OF this]
    show "\<exists>c' k. map_of (handlers (sys\<lparr>srv := s'\<rparr>)) c' = Some k
            \<and> (h_username k = u \<and> (h_phase k = Looping \<or> h_phase k = Leaving))"
      by simp
  }
  {
    fix p
    assume "presenter (srv (sys\<lparr>srv := s'\<rparr>)) = Some p"
    then have p: "presenter s' = Some p" by simp
    show "\<exists>c' k. map_of (handlers (sys\<lparr>srv := s'\<rparr>)) c' = Some k
            \<and> (h_username k = p \<and> h_phase k \<noteq> Checked)"
    proof (cases "presenter (srv sys) = Some p")
      case True
      from d(5) [OF this] show ?thesis by simp
    next
      case False
      with f(2) p have "p = h_username h" by auto
      with assms(2,3) have "map_of (handlers (sys\<lparr>srv := s'\<rparr>)) c = Some h
            \<and> (h_username h = p \<and> h_phase h \<noteq> Checked)" by simp
      then show ?thesis by blast
    qed
  }
qed

lemma consistent_ends:
  assumes "consistent sys"
    and "map_of (handlers sys) c = Some h"
    and "h_phase h = Looping"
  shows "consistent
           (sys\<lparr>handlers := AList.update c (h\<lparr>h_phase := Leaving\<rparr>) (handlers sys)\<rparr>)"
    (is "consistent ?sys'")
proof (rule consistentI)
  note d = consistentD [OF assms(1)]
  have H: "map_of (handlers ?sys') = (map_of (handlers sys))(c \<mapsto> h\<lparr>h_phase := Leaving\<rparr>)"
    by (simp add: update_conv')
  have S: "srv ?sys' = srv sys" by simp
  {
    fix c' k
    assume "map_of (handlers ?sys') c' = Some k"
    then have a: "((map_of (handlers sys))(c \<mapsto> h\<lparr>h_phase := Leaving\<rparr>)) c' = Some k"
      unfolding H .
    from old_handler [OF a assms(2)] obtain k0 where
      k0: "map_of (handlers sys) c' = Some k0" "h_username k0 = h_username k"
        "h_socket k0 = h_socket k" "c' \<noteq> c \<Longrightarrow> k0 = k" "c' = c \<Longrightarrow> k0 = h \<and> h_phase k = Leaving"
      by blast
    from d(1) [OF k0(1)] k0(2) show "h_username k \<noteq> []" by simp
    assume ph: "h_phase k = Looping \<or> h_phase k = Leaving"
    have "h_phase k0 = Looping \<or> h_phase k0 = Leaving"
      using k0(4,5) ph assms(3) by (cases "c' = c") auto
    from d(3) [OF k0(1) this] k0(2,3)
    show "registered_on (srv ?sys') (h_username k) (h_socket k)" unfolding S by simp
  }
  {
    fix c1 c2 h1 h2
    assume "map_of (handlers ?sys') c1 = Some h1" and "map_of (handlers ?sys') c2 = Some h2"
      and eq: "h_username h1 = h_username h2"
    then have a1: "((map_of (handlers sys))(c \<mapsto> h\<lparr>h_phase := Leaving\<rparr>)) c1 = Some h1"
      and a2: "((map_of (handlers sys))(c \<mapsto> h\<lparr>h_phase := Leaving\<rparr>)) c2 = Some h2"
      unfolding H by simp_all
    from old_handler [OF a1 assms(2)] obtain k1 where
      k1: "map_of (handlers sys) c1 = Some k1" "h_username k1 = h_username h1" by blast
    from old_handler [OF a2 assms(2)] obtain k2 where
      k2: "map_of (handlers sys) c2 = Some k2" "h_username k2 = h_username h2" by blast
    from k1(2) k2(2) eq have "h_username k1 = h_username k2" by simp
    with k1(1) k2(1) show "c1 = c2" by (rule d(2))
  }
  {
    fix u
    assume "map_of (clients (srv ?sys')) u \<noteq> None"
    then have "map_of (clients (srv sys)) u \<noteq> None" unfolding S .
    from d(4) [OF this]
    have "\<exists>c' k. ((map_of (handlers sys))(c \<mapsto> h\<lparr>h_phase := Leaving\<rparr>)) c' = Some k
            \<and> (h_username k = u \<and> (h_phase k = Looping \<or> h_phase k = Leaving))"
      by (rule ex_handler_update
            [where H = "map_of (handlers sys)" and c = c and h = h and P = "\<lambda>k. h_username k = u \<and> (h_phase k = Looping \<or> h_phase k = Leaving)",
             OF _ assms(2)]) simp
    then show "\<exists>c' k. map_of (handlers ?sys') c' = Some k
            \<and> (h_username k = u \<and> (h_phase k = Looping \<or> h_phase k = Leaving))"
      unfolding H .
  }
  {
    fix p
    assume "presenter (srv ?sys') = Some p"
    then have "presenter (srv sys) = Some p" unfolding S .
    from d(5) [OF this]
    have "\<exists>c' k. ((map_of (handlers sys))(c \<mapsto> h\<lparr>h_phase := Leaving\<rparr>)) c' = Some k
            \<and> (h_username k = p \<and> h_phase k \<noteq> Checked)"
      by (rule ex_handler_update
            [where H = "map_of (handlers sys)" and c = c and h = h and P = "\<lambda>k. h_username k = p \<and> h_phase k \<noteq> Checked", OF _ assms(2)]) simp
    then show "\<exists>c' k. map_of (handlers ?sys') c' = Some k
            \<and> (h_username k = p \<and> h_phase k \<noteq> Checked)"
      unfolding H .
  }
qed

lemma consistent_deregister:
  assumes "consistent sys"
    and "map_of (handlers sys) c = Some h"
    and "h_phase h = Leaving"
  shows "consistent
           (sys\<lparr>srv := finally_deregister (h_username h) (srv sys),
                handlers := AList.update c (h\<lparr>h_phase := Deregistered\<rparr>) (handlers sys)\<rparr>)"
    (is "consistent ?sys'")
proof (rule consistentI)
  note d = consistentD [OF assms(1)]
  let ?s' = "finally_deregister (h_username h) (srv sys)"
  have H: "map_of (handlers ?sys') = (map_of (handlers sys))(c \<mapsto> h\<lparr>h_phase := Deregistered\<rparr>)"
    by (simp add: update_conv')
  have S: "srv ?sys' = ?s'" by simp
  have C: "map_of (clients ?s') = (map_of (clients (srv sys)))(h_username h := None)"
    by (simp add: finally_deregister_def delete_conv')
  have P: "presenter ?s' = presenter (srv sys)" by (simp add: finally_deregister_def)
  have R: "\<And>u sk. u \<noteq> h_username h \<Longrightarrow>
             registered_on ?s' u sk = registered_on (srv sys) u sk"
    by (rule registered_on_cong) (simp add: C)
  {
    fix c' k
    assume "map_of (handlers ?sys') c' = Some k"
    then have a: "((map_of (handlers sys))(c \<mapsto> h\<lparr>h_phase := Deregistered\<rparr>)) c' = Some k"
      unfolding H .
    from old_handler [OF a assms(2)] obtain k0 where
      k0: "map_of (handlers sys) c' = Some k0" "h_username k0 = h_username k"
        "h_socket k0 = h_socket k" "c' \<noteq> c \<Longrightarrow> k0 = k"
        "c' = c \<Longrightarrow> k0 = h \<and> h_phase k = Deregistered"
      by blast
    from d(1) [OF k0(1)] k0(2) show "h_username k \<noteq> []" by simp
    assume ph: "h_phase k = Looping \<or> h_phase k = Leaving"
    with k0(5) have ne: "c' \<noteq> c" by auto
    with k0(4) have eq: "k0 = k" by simp
    have "h_username k \<noteq> h_username h"
    proof
      assume "h_username k = h_username h"
      with d(2) [OF k0(1) assms(2)] eq have "c' = c" by simp
      with ne show False by simp
    qed
    with d(3) [OF k0(1)] ph eq R [of "h_username k" "h_socket k"]
    show "registered_on (srv ?sys') (h_username k) (h_socket k)" unfolding S by simp
  }
  {
    fix c1 c2 h1 h2
    assume "map_of (handlers ?sys') c1 = Some h1" and "map_of (handlers ?sys') c2 = Some h2"
      and eq: "h_username h1 = h_username h2"
    then have a1: "((map_of (handlers sys))(c \<mapsto> h\<lparr>h_phase := Deregistered\<rparr>)) c1 = Some h1"
      and a2: "((map_of (handlers sys))(c \<mapsto> h\<lparr>h_phase := Deregistered\<rparr>)) c2 = Some h2"
      unfolding H by simp_all
    from old_handler [OF a1 assms(2)] obtain k1 where
      k1: "map_of (handlers sys) c1 = Some k1" "h_username k1 = h_username h1" by blast
    from old_handler [OF a2 assms(2)] obtain k2 where
      k2: "map_of (handlers sys) c2 = Some k2" "h_username k2 = h_username h2" by blast
    from k1(2) k2(2) eq have "h_username k1 = h_username k2" by simp
    with k1(1) k2(1) show "c1 = c2" by (rule d(2))
  }
  {
    fix u
    assume "map_of (clients (srv ?sys')) u \<noteq> None"
    then have "((map_of (clients (srv sys)))(h_username h := None)) u \<noteq> None"
      unfolding S C .
    then have u: "u \<noteq> h_username h" "map_of (clients (srv sys)) u \<noteq> None"
      by (auto split: if_splits)
    from d(4) [OF u(2)] obtain c' k where w: "map_of (handlers sys) c' = Some k"
      "h_username k = u \<and> (h_phase k = Looping \<or> h_phase k = Leaving)" by blast
    with u(1) assms(2) have "c' \<noteq> c" by auto
    with w have "((map_of (handlers sys))(c \<mapsto> h\<lparr>h_phase := Deregistered\<rparr>)) c' = Some k
            \<and> (h_username k = u \<and> (h_phase k = Looping \<or> h_phase k = Leaving))" by simp
    then show "\<exists>c' k. map_of (handlers ?sys') c' = Some k
            \<and> (h_username k = u \<and> (h_phase k = Looping \<or> h_phase k = Leaving))"
      unfolding H by blast
  }
  {
    fix p
    assume "presenter (srv ?sys') = Some p"
    then have "presenter (srv sys) = Some p" unfolding S P .
    from d(5) [OF this]
    have "\<exists>c' k. ((map_of (handlers sys))(c \<mapsto> h\<lparr>h_phase := Deregistered\<rparr>)) c' = Some k
            \<and> (h_username k = p \<and> h_phase k \<noteq> Checked)"
      by (rule ex_handler_update
            [where H = "map_of (handlers sys)" and c = c and h = h
               and P = "\<lambda>k. h_username k = p \<and> h_phase k \<noteq> Checked", OF _ assms(2)]) simp
    then show "\<exists>c' k. map_of (handlers ?sys') c' = Some k
            \<and> (h_username k = p \<and> h_phase k \<noteq> Checked)"
      unfolding H .
  }
qed

lemma consistent_check:
  assumes "consistent sys"
    and "map_of (handlers sys) c = Some h"
    and "h_phase h = Deregistered"
  shows "consistent
           (sys\<lparr>srv := fst (finally_presenter (h_username h) (srv sys)),
                handlers := AList.update c (h\<lparr>h_phase := Checked\<rparr>) (handlers sys)\<rparr>)"
    (is "consistent ?sys'")
proof (rule consistentI)
  note d = consistentD [OF assms(1)]
  let ?s' = "fst (finally_presenter (h_username h) (srv sys))"
  have H: "map_of (handlers ?sys') = (map_of (handlers sys))(c \<mapsto> h\<lparr>h_phase := Checked\<rparr>)"
    by (simp add: update_conv')
  have S: "srv ?sys' = ?s'" by simp
  have C: "clients ?s' = clients (srv sys)"
    by (simp add: finally_presenter_def Let_def)
  have P: "presenter ?s' =
             (if presenter (srv sys) = Some (h_username h) then None else presenter (srv sys))"
    by (simp add: finally_presenter_def Let_def)
  have R: "\<And>u sk. registered_on ?s' u sk = registered_on (srv sys) u sk"
    by (rule registered_on_cong) (simp add: C)
  {
    fix c' k
    assume "map_of (handlers ?sys') c' = Some k"
    then have a: "((map_of (handlers sys))(c \<mapsto> h\<lparr>h_phase := Checked\<rparr>)) c' = Some k"
      unfolding H .
    from old_handler [OF a assms(2)] obtain k0 where
      k0: "map_of (handlers sys) c' = Some k0" "h_username k0 = h_username k"
        "h_socket k0 = h_socket k" "c' \<noteq> c \<Longrightarrow> k0 = k"
        "c' = c \<Longrightarrow> k0 = h \<and> h_phase k = Checked"
      by blast
    from d(1) [OF k0(1)] k0(2) show "h_username k \<noteq> []" by simp
    assume ph: "h_phase k = Looping \<or> h_phase k = Leaving"
    with k0(5) have ne: "c' \<noteq> c" by auto
    with k0(4) have eq: "k0 = k" by simp
    with d(3) [OF k0(1)] ph R [of "h_username k" "h_socket k"]
    show "registered_on (srv ?sys') (h_username k) (h_socket k)" unfolding S by simp
  }
  {
    fix c1 c2 h1 h2
    assume "map_of (handlers ?sys') c1 = Some h1" and "map_of (handlers ?sys') c2 = Some h2"
      and eq: "h_username h1 = h_username h2"
    then have a1: "((map_of (handlers sys))(c \<mapsto> h\<lparr>h_phase := Checked\<rparr>)) c1 = Some h1"
      and a2: "((map_of (handlers sys))(c \<mapsto> h\<lparr>h_phase := Checked\<rparr>)) c2 = Some h2"
      unfolding H by simp_all
    from old_handler [OF a1 assms(2)] obtain k1 where
      k1: "map_of (handlers sys) c1 = Some k1" "h_username k1 = h_username h1" by blast
    from old_handler [OF a2 assms(2)] obtain k2 where
      k2: "map_of (handlers sys) c2 = Some k2" "h_username k2 = h_username h2" by blast
    from k1(2) k2(2) eq have "h_username k1 = h_username k2" by simp
    with k1(1) k2(1) show "c1 = c2" by (rule d(2))
  }
  {
    fix u
    assume "map_of (clients (srv ?sys')) u \<noteq> None"
    then have "map_of (clients (srv sys)) u \<noteq> None" unfolding S C .
    from d(4) [OF this] obtain c' k where w: "map_of (handlers sys) c' = Some k"
      "h_username k = u \<and> (h_phase k = Looping \<or> h_phase k = Leaving)" by blast
    with assms(2,3) have "c' \<noteq> c" by auto
    with w have "((map_of (handlers sys))(c \<mapsto> h\<lparr>h_phase := Checked\<rparr>)) c' = Some k
            \<and> (h_username k = u \<and> (h_phase k = Looping \<or> h_phase k = Leaving))" by simp
    then show "\<exists>c' k. map_of (handlers ?sys') c' = Some k
            \<and> (h_username k = u \<and> (h_phase k = Looping \<or> h_phase k = Leaving))"
      unfolding H by blast
  }
  {
    fix p
    assume "presenter (srv ?sys') = Some p"
    then have "(if presenter (srv sys) = Some (h_username h) then None
                else presenter (srv sys)) = Some p"
      unfolding S P .
    then have p: "presenter (srv sys) = Some p" "p \<noteq> h_username h"
      by (auto split: if_splits)
    from d(5) [OF p(1)] obtain c' k where w: "map_of (handlers sys) c' = Some k"
      "h_username k = p \<and> h_phase k \<noteq> Checked" by blast
    with p(2) assms(2) have "c' \<noteq> c" by auto
    with w have "((map_of (handlers sys))(c \<mapsto> h\<lparr>h_phase := Checked\<rparr>)) c' = Some k
            \<and> (h_username k = p \<and> h_phase k \<noteq> Checked)" by simp
    then show "\<exists>c' k. map_of (handlers ?sys') c' = Some k
            \<and> (h_username k = p \<and> h_phase k \<noteq> Checked)"
      unfolding H by blast
  }
qed

lemma consistent_gone:
  assumes "consistent sys"
    and "map_of (handlers sys) c = Some h"
    and "h_phase h = Checked"
  shows "consistent (sys\<lparr>handlers := AList.delete c (handlers sys)\<rparr>)"
    (is "consistent ?sys'")
proof (rule consistentI)
  note d = consistentD [OF assms(1)]
  have H: "map_of (handlers ?sys') = (map_of (handlers sys))(c := None)"
    by (simp add: delete_conv')
  have S: "srv ?sys' = srv sys" by simp
  have old: "\<And>c' k. map_of (handlers ?sys') c' = Some k \<Longrightarrow> map_of (handlers sys) c' = Some k"
    unfolding H by (auto split: if_splits)
  {
    fix c' k
    assume a: "map_of (handlers ?sys') c' = Some k"
    from d(1) [OF old [OF a]] show "h_username k \<noteq> []" .
    assume "h_phase k = Looping \<or> h_phase k = Leaving"
    from d(3) [OF old [OF a] this]
    show "registered_on (srv ?sys') (h_username k) (h_socket k)" unfolding S .
  }
  {
    fix c1 c2 h1 h2
    assume a1: "map_of (handlers ?sys') c1 = Some h1" and a2: "map_of (handlers ?sys') c2 = Some h2"
      and eq: "h_username h1 = h_username h2"
    from old [OF a1] old [OF a2] eq show "c1 = c2" by (rule d(2))
  }
  {
    fix u
    assume "map_of (clients (srv ?sys')) u \<noteq> None"
    then have "map_of (clients (srv sys)) u \<noteq> None" unfolding S .
    from d(4) [OF this]
    have "\<exists>c' k. ((map_of (handlers sys))(c := None)) c' = Some k
            \<and> (h_username k = u \<and> (h_phase k = Looping \<or> h_phase k = Leaving))"
      by (rule ex_handler_delete
            [where H = "map_of (handlers sys)" and c = c and h = h
               and P = "\<lambda>k. h_username k = u \<and> (h_phase k = Looping \<or> h_phase k = Leaving)",
             OF _ assms(2)]) (simp add: assms(3))
    then show "\<exists>c' k. map_of (handlers ?sys') c' = Some k
            \<and> (h_username k = u \<and> (h_phase k = Looping \<or> h_phase k = Leaving))"
      unfolding H .
  }
  {
    fix p
    assume "presenter (srv ?sys') = Some p"
    then have "presenter (srv sys) = Some p" unfolding S .
    from d(5) [OF this]
    have "\<exists>c' k. ((map_of (handlers sys))(c := None)) c' = Some k
            \<and> (h_username k = p \<and> h_phase k \<noteq> Checked)"
      by (rule ex_handler_delete
            [where H = "map_of (handlers sys)" and c = c and h = h
               and P = "\<lambda>k. h_username k = p \<and> h_phase k \<noteq> Checked", OF _ assms(2)])
         (simp add: assms(3))
    then show "\<exists>c' k. map_of (handlers ?sys') c' = Some k
            \<and> (h_username k = p \<and> h_phase k \<noteq> Checked)"
      unfolding H .
  }
qed

lemma fresh_names:
  assumes "list_all (\<lambda>(c', h). h_username h \<noteq> username) (handlers sys)"
    and "map_of (handlers sys) c' = Some h"
  shows "h_username h \<noteq> username"
proof -
  from assms(2) have "(c', h) \<in> set (handlers sys)" by (rule map_of_SomeD)
  with assms(1) show ?thesis by (auto simp: list_all_iff)
qed

lemma step_Accept:
  assumes "step lib (Accept c client_socket addr data) sys = Some (sys', out)"
    and "fresh_identity (Accept c client_socket addr data) sys"
  obtains (idle) "sys' = sys" "out = []"
    | (registers) username where "map_of (handlers sys) c = None"
        "first_username data = Some (JStr username)"
        "username \<noteq> []" "map_of (clients (srv sys)) username = None"
        "list_all (\<lambda>(c', h). h_username h \<noteq> username) (handlers sys)"
        "sys' = sys\<lparr>srv := fst (handle_client_register client_socket addr username (srv sys)),
                     handlers := AList.update c
                       \<lparr>h_username = username, h_socket = client_socket, h_phase = Looping\<rparr>
                       (handlers sys)\<rparr>"
        "out = snd (handle_client_register client_socket addr username (srv sys))"
proof (cases "map_of (handlers sys) c")
  case (Some h)
  with assms(1) show ?thesis by (intro idle) simp_all
next
  case None
  show ?thesis
  proof (cases "first_username data")
    case N: None
    with None assms(1) show ?thesis by (intro idle) simp_all
  next
    case (Some v)
    show ?thesis
    proof (cases v)
      case (JStr username)
      with Some None assms(2) have fr: "username \<noteq> []"
        "map_of (clients (srv sys)) username = None"
        "list_all (\<lambda>(c', h). h_username h \<noteq> username) (handlers sys)"
        by simp_all
      from JStr Some None assms(1) have
        "sys' = sys\<lparr>srv := fst (handle_client_register client_socket addr username (srv sys)),
                     handlers := AList.update c
                       \<lparr>h_username = username, h_socket = client_socket, h_phase = Looping\<rparr>
                       (handlers sys)\<rparr>"
        "out = snd (handle_client_register client_socket addr username (srv sys))"
        by (auto simp: case_prod_unfold)
      with None Some JStr fr show ?thesis by (intro registers [of username]) simp_all
    qed (use Some None assms(2) in simp_all)
  qed
qed

lemma step_Receive:
  assumes "step lib (Receive c clock msg) sys = Some (sys', out)"
  obtains (idle) "sys' = sys" "out = []"
    | (goes_on) h m s' where "map_of (handlers sys) c = Some h" "h_phase h = Looping"
        "process_message lib clock (h_username h) m (srv sys) = Inr (s', out)"
        "sys' = sys\<lparr>srv := s'\<rparr>"
    | (ends) h where "map_of (handlers sys) c = Some h" "h_phase h = Looping"
        "handle_client_turn lib clock (h_username h) msg (srv sys) = Ends out"
        "sys' = sys\<lparr>handlers := AList.update c (h\<lparr>h_phase := Leaving\<rparr>) (handlers sys)\<rparr>"
proof (cases "map_of (handlers sys) c")
  case None
  with assms show ?thesis by (intro idle) simp_all
next
  case (Some h)
  show ?thesis
  proof (cases "h_phase h = Looping")
    case False
    with Some assms show ?thesis by (intro idle) simp_all
  next
    case True
    show ?thesis
    proof (cases rule: handle_client_turn_cases [of msg lib clock "h_username h" "srv sys"])
      case (goes_on m s1 out1)
      with Some True assms have "sys' = sys\<lparr>srv := s1\<rparr>" "out = out1" by simp_all
      with Some True goes_on show ?thesis by (intro that(2) [of h m s1]) simp_all
    next
      case closed
      with Some True assms have
        "sys' = sys\<lparr>handlers := AList.update c (h\<lparr>h_phase := Leaving\<rparr>) (handlers sys)\<rparr>"
        "out = []" by simp_all
      with Some True closed show ?thesis by (intro ends [of h]) simp_all
    next
      case (raised m e out1)
      with Some True assms have
        "sys' = sys\<lparr>handlers := AList.update c (h\<lparr>h_phase := Leaving\<rparr>) (handlers sys)\<rparr>"
        "out = out1" by simp_all
      with Some True raised show ?thesis by (intro ends [of h]) simp_all
    qed
  qed
qed

lemma step_Finally:
  assumes "step lib (Finally c) sys = Some (sys', out)"
  obtains (idle) "sys' = sys" "out = []"
    | (unnamed) h where "map_of (handlers sys) c = Some h" "h_phase h = Leaving"
        "h_username h = []"
    | (deregisters) h where "map_of (handlers sys) c = Some h" "h_phase h = Leaving"
        "sys' = sys\<lparr>srv := finally_deregister (h_username h) (srv sys),
                     handlers := AList.update c (h\<lparr>h_phase := Deregistered\<rparr>) (handlers sys)\<rparr>"
        "out = []"
    | (checks) h where "map_of (handlers sys) c = Some h" "h_phase h = Deregistered"
        "sys' = sys\<lparr>srv := fst (finally_presenter (h_username h) (srv sys)),
                     handlers := AList.update c (h\<lparr>h_phase := Checked\<rparr>) (handlers sys)\<rparr>"
        "out = snd (finally_presenter (h_username h) (srv sys))"
    | (notifies) h where "map_of (handlers sys) c = Some h" "h_phase h = Checked"
        "sys' = sys\<lparr>handlers := AList.delete c (handlers sys)\<rparr>"
        "out = finally_notify (h_username h) (srv sys)"
proof (cases "map_of (handlers sys) c")
  case None
  with assms show ?thesis by (intro idle) simp_all
next
  case (Some h)
  show ?thesis
  proof (cases "h_phase h")
    case Looping
    with Some assms show ?thesis by (intro idle) simp_all
  next
    case Leaving
    show ?thesis
    proof (cases "h_username h = []")
      case True
      with Some Leaving show ?thesis by (intro unnamed [of h]) simp_all
    next
      case False
      with Some Leaving assms show ?thesis by (intro deregisters [of h]) simp_all
    qed
  next
    case Deregistered
    with Some assms show ?thesis
      by (intro checks [of h]) (auto simp: case_prod_unfold)
  next
    case Checked
    with Some assms show ?thesis by (intro notifies [of h]) auto
  qed
qed

lemma step_consistent:
  assumes "consistent sys"
    and "fresh_identity e sys"
    and "step lib e sys = Some (sys', out)"
  shows "consistent sys'"
proof (cases e)
  case (Accept c client_socket addr data)
  from assms(3,2) [unfolded Accept] show ?thesis
  proof (cases rule: step_Accept)
    case idle
    with assms(1) show ?thesis by simp
  next
    case (registers username)
    from consistent_register [OF assms(1) registers(1,3,4) fresh_names [OF registers(5)]]
    show ?thesis unfolding registers(6) by simp
  qed
next
  case (Receive c clock msg)
  from assms(3) [unfolded Receive] show ?thesis
  proof (cases rule: step_Receive)
    case idle
    with assms(1) show ?thesis by simp
  next
    case (goes_on h m s')
    from consistent_goes_on [OF assms(1) goes_on(1,2,3)] show ?thesis
      unfolding goes_on(4) .
  next
    case (ends h)
    from consistent_ends [OF assms(1) ends(1,2)] show ?thesis unfolding ends(4) .
  qed
next
  case (Finally c)
  from assms(3) [unfolded Finally] show ?thesis
  proof (cases rule: step_Finally)
    case idle
    with assms(1) show ?thesis by simp
  next
    case (unnamed h)
    with consistentD(1) [OF assms(1) unnamed(1)] show ?thesis by simp
  next
    case (deregisters h)
    from consistent_deregister [OF assms(1) deregisters(1,2)] show ?thesis
      unfolding deregisters(3) .
  next
    case (checks h)
    from consistent_check [OF assms(1) checks(1,2)] show ?thesis unfolding checks(3) .
  next
    case (notifies h)
    from consistent_gone [OF assms(1) notifies(1,2)] show ?thesis unfolding notifies(3) .
  qed
qed

lemma run_Cons:
  assumes "run lib (e # es) sys = Some (sys', out)"
  obtains sys1 out1 out2 where "step lib e sys = Some (sys1, out1)"
    "run lib es sys1 = Some (sys', out2)" "out = out1 @ out2"
  using assms by (auto split: option.splits prod.splits)

lemma fresh_run_Cons:
  assumes "fresh_run lib (e # es) sys" and "step lib e sys = Some (sys1, out1)"
  shows "fresh_identity e sys" and "fresh_run lib es sys1"
  using assms by simp_all

lemma fresh_run_total:
  "fresh_run lib es sys \<Longrightarrow> \<exists>sys' out. run lib es sys = Some (sys', out)"
proof (induction es arbitrary: sys)
  case Nil
  then show ?case by simp
next
  case (Cons e es)
  from Cons.prems obtain sys1 out1 where s: "step lib e sys = Some (sys1, out1)"
    by (auto split: option.splits)
  with Cons.prems have "fresh_run lib es sys1" by simp
  from Cons.IH [OF this] obtain sys' out2 where "run lib es sys1 = Some (sys', out2)"
    by blast
  with s show ?case by simp
qed

lemma run_consistent:
  "consistent sys \<Longrightarrow> fresh_run lib es sys \<Longrightarrow> run lib es sys = Some (sys', out)
     \<Longrightarrow> consistent sys'"
proof (induction es arbitrary: sys out)
  case Nil
  then show ?case by simp
next
  case (Cons e es)
  from Cons.prems(3) obtain sys1 out1 out2 where
    s: "step lib e sys = Some (sys1, out1)" and r: "run lib es sys1 = Some (sys', out2)"
    by (rule run_Cons)
  from fresh_run_Cons [OF Cons.prems(2) s] have f: "fresh_identity e sys" "fresh_run lib es sys1" .
  from step_consistent [OF Cons.prems(1) f(1) s] have "consistent sys1" .
  from Cons.IH [OF this f(2) r] show ?case .
qed

lemma run_append:
  "run lib (xs @ ys) sys = Some (sys', out) \<Longrightarrow>
     \<exists>sys1 out1 out2. run lib xs sys = Some (sys1, out1) \<and> run lib ys sys1 = Some (sys', out2)
        \<and> out = out1 @ out2"
proof (induction xs arbitrary: sys out)
  case Nil
  then show ?case by simp
next
  case (Cons e xs)
  from Cons.prems [simplified append_Cons] obtain sysa outa outb where
    s: "step lib e sys = Some (sysa, outa)" and r: "run lib (xs @ ys) sysa = Some (sys', outb)"
    and o: "out = outa @ outb"
    by (rule run_Cons)
  from Cons.IH [OF r] obtain sys1 out1 out2 where
    a: "run lib xs sysa = Some (sys1, out1)" and b: "run lib ys sys1 = Some (sys', out2)"
    and c: "outb = out1 @ out2" by blast
  from s a have "run lib (e # xs) sys = Some (sys1, outa @ out1)" by simp
  with b o c show ?case by simp
qed

lemma fresh_run_append:
  "fresh_run lib (xs @ ys) sys \<Longrightarrow> run lib xs sys = Some (sys1, out1) \<Longrightarrow>
     fresh_run lib xs sys \<and> fresh_run lib ys sys1"
proof (induction xs arbitrary: sys out1)
  case Nil
  then show ?case by simp
next
  case (Cons e xs)
  from Cons.prems(2) obtain sysa outa outb where
    s: "step lib e sys = Some (sysa, outa)" and r: "run lib xs sysa = Some (sys1, outb)"
    by (rule run_Cons)
  from Cons.prems(1) s have f: "fresh_identity e sys" "fresh_run lib (xs @ ys) sysa" by simp_all
  from Cons.IH [OF f(2) r] have "fresh_run lib xs sysa \<and> fresh_run lib ys sys1" .
  with f(1) s show ?case by simp
qed

lemma presentation_stopped_inject:
  "presentation_stopped a = presentation_stopped b \<Longrightarrow> a = b"
  by (simp add: presentation_stopped_def)

lemma handle_client_register_out:
  "\<forall>x \<in> set (snd (handle_client_register client_socket addr username s)).
     snd x \<noteq> presentation_stopped w"
  by (auto simp: handle_client_register_def Let_def welcome_message_def
      presentation_started_def user_joined_def presentation_stopped_def
      split: option.splits dest!: broadcast_message_snd)

lemma finally_notify_out:
  "\<forall>x \<in> set (finally_notify username s). snd x \<noteq> presentation_stopped w"
  by (auto simp: finally_notify_def user_left_def presentation_stopped_def
      dest!: broadcast_message_snd)

lemma finally_presenter_out:
  "w \<noteq> username \<Longrightarrow>
     \<forall>x \<in> set (snd (finally_presenter username s)). snd x \<noteq> presentation_stopped w"
  by (auto simp: finally_presenter_def Let_def
      dest!: broadcast_message_snd presentation_stopped_inject)

lemma handle_client_turn_out:
  assumes "handle_client_turn lib clock u msg s = Ends out"
  shows "\<forall>x \<in> set out. snd x \<noteq> presentation_stopped w"
proof (cases rule: handle_client_turn_cases [of msg lib clock u s])
  case (goes_on m s' out')
  with assms show ?thesis by simp
next
  case closed
  with assms show ?thesis by simp
next
  case (raised m e out')
  with assms have "out' = out" by simp
  with process_message_raised [OF raised(2), of w] show ?thesis by simp
qed

lemma step_others:
  assumes "consistent sys"
    and "map_of (handlers sys) c = Some h"
    and "connection e \<noteq> c"
    and "fresh_identity e sys"
    and "step lib e sys = Some (sys', out)"
  shows "map_of (handlers sys') c = Some h
       \<and> (presenter (srv sys') = Some (h_username h))
           = (presenter (srv sys) = Some (h_username h))
       \<and> (map_of (clients (srv sys')) (h_username h) = None)
           = (map_of (clients (srv sys)) (h_username h) = None)
       \<and> (\<forall>x \<in> set out. snd x \<noteq> presentation_stopped (h_username h))"
proof (cases e)
  case (Accept c' client_socket addr data)
  with assms(3) have ne: "c' \<noteq> c" by simp
  from assms(5,4) [unfolded Accept] show ?thesis
  proof (cases rule: step_Accept)
    case idle
    with assms(2) show ?thesis by simp
  next
    case (registers username)
    from fresh_names [OF registers(5) assms(2)] have nu: "h_username h \<noteq> username" .
    have a: "map_of (handlers sys') c = Some h"
      unfolding registers(6) using ne assms(2) by (simp add: update_conv')
    have b: "presenter (srv sys') = presenter (srv sys)"
      unfolding registers(6) by (simp add: handle_client_register_def Let_def)
    have c: "map_of (clients (srv sys')) (h_username h) = map_of (clients (srv sys)) (h_username h)"
      unfolding registers(6) using nu
      by (simp add: handle_client_register_def Let_def update_conv')
    from a b c handle_client_register_out [of client_socket addr username "srv sys" "h_username h"]
    show ?thesis unfolding registers(7) by simp
  qed
next
  case (Receive c' clock msg)
  with assms(3) have ne: "c' \<noteq> c" by simp
  from assms(5) [unfolded Receive] show ?thesis
  proof (cases rule: step_Receive)
    case idle
    with assms(2) show ?thesis by simp
  next
    case (goes_on k m s')
    have nk: "h_username h \<noteq> h_username k"
    proof
      assume "h_username h = h_username k"
      from consistentD(2) [OF assms(1) assms(2) goes_on(1) this] ne show False by simp
    qed
    note f = process_message_frame(1,2) [OF goes_on(3)]
      process_message_frame(3) [OF goes_on(3), of "h_username h"]
    from f(1) have "map_option tcp_socket (map_of (clients s') (h_username h))
                      = map_option tcp_socket (map_of (clients (srv sys)) (h_username h))"
      by simp
    then have c: "(map_of (clients s') (h_username h) = None)
                    = (map_of (clients (srv sys)) (h_username h) = None)"
      by (cases "map_of (clients s') (h_username h)";
          cases "map_of (clients (srv sys)) (h_username h)") simp_all
    from f(2) nk have b: "(presenter s' = Some (h_username h))
           = (presenter (srv sys) = Some (h_username h))" by auto
    from f(3) nk have o: "\<forall>x \<in> set out. snd x \<noteq> presentation_stopped (h_username h)" by simp
    from assms(2) b c o show ?thesis unfolding goes_on(4) by simp
  next
    case (ends k)
    have a: "map_of (handlers sys') c = Some h"
      unfolding ends(4) using ne assms(2) by (simp add: update_conv')
    from a handle_client_turn_out [OF ends(3), of "h_username h"] show ?thesis
      unfolding ends(4) by simp
  qed
next
  case (Finally c')
  with assms(3) have ne: "c' \<noteq> c" by simp
  from assms(5) [unfolded Finally] show ?thesis
  proof (cases rule: step_Finally)
    case idle
    with assms(2) show ?thesis by simp
  next
    case (unnamed k)
    with consistentD(1) [OF assms(1) unnamed(1)] show ?thesis by simp
  next
    case (deregisters k)
    have nk: "h_username h \<noteq> h_username k"
    proof
      assume "h_username h = h_username k"
      from consistentD(2) [OF assms(1) assms(2) deregisters(1) this] ne show False by simp
    qed
    have a: "map_of (handlers sys') c = Some h"
      unfolding deregisters(3) using ne assms(2) by (simp add: update_conv')
    have b: "presenter (srv sys') = presenter (srv sys)"
      unfolding deregisters(3) by (simp add: finally_deregister_def)
    have c: "map_of (clients (srv sys')) (h_username h) = map_of (clients (srv sys)) (h_username h)"
      unfolding deregisters(3) using nk by (simp add: finally_deregister_def delete_conv')
    from a b c deregisters(4) show ?thesis by simp
  next
    case (checks k)
    have nk: "h_username h \<noteq> h_username k"
    proof
      assume "h_username h = h_username k"
      from consistentD(2) [OF assms(1) assms(2) checks(1) this] ne show False by simp
    qed
    have a: "map_of (handlers sys') c = Some h"
      unfolding checks(3) using ne assms(2) by (simp add: update_conv')
    have b: "(presenter (srv sys') = Some (h_username h))
               = (presenter (srv sys) = Some (h_username h))"
      unfolding checks(3) using nk by (auto simp: finally_presenter_def Let_def)
    have c: "clients (srv sys') = clients (srv sys)"
      unfolding checks(3) by (simp add: finally_presenter_def Let_def)
    from a b c finally_presenter_out [OF nk, of "srv sys"] show ?thesis
      unfolding checks(4) by simp
  next
    case (notifies k)
    have a: "map_of (handlers sys') c = Some h"
      unfolding notifies(3) using ne assms(2) by (simp add: delete_conv')
    from a finally_notify_out [of "h_username k" "srv sys" "h_username h"] show ?thesis
      unfolding notifies(3,4) by simp
  qed
qed

lemma run_others:
  assumes "consistent sys"
    and "map_of (handlers sys) c = Some h"
    and "list_all (\<lambda>e. connection e \<noteq> c) es"
    and "fresh_run lib es sys"
    and "run lib es sys = Some (sys', out)"
  shows "consistent sys' \<and> map_of (handlers sys') c = Some h
       \<and> (presenter (srv sys') = Some (h_username h))
           = (presenter (srv sys) = Some (h_username h))
       \<and> (map_of (clients (srv sys')) (h_username h) = None)
           = (map_of (clients (srv sys)) (h_username h) = None)
       \<and> (\<forall>x \<in> set out. snd x \<noteq> presentation_stopped (h_username h))"
  using assms
proof (induction es arbitrary: sys out)
  case Nil
  then show ?case by simp
next
  case (Cons e es)
  from Cons.prems(5) obtain sys1 out1 out2 where
    s: "step lib e sys = Some (sys1, out1)" and r: "run lib es sys1 = Some (sys', out2)"
    and o: "out = out1 @ out2"
    by (rule run_Cons)
  from fresh_run_Cons [OF Cons.prems(4) s] have f: "fresh_identity e sys" "fresh_run lib es sys1" .
  from Cons.prems(3) have ne: "connection e \<noteq> c" and rest: "list_all (\<lambda>e. connection e \<noteq> c) es"
    by simp_all
  from step_consistent [OF Cons.prems(1) f(1) s] have c1: "consistent sys1" .
  note a = step_others [OF Cons.prems(1,2) ne f(1) s]
  from a have h1: "map_of (handlers sys1) c = Some h" by simp
  note b = Cons.IH [OF c1 h1 rest f(2) r]
  from a b o show ?case by auto
qed

text \<open>
  Claim C2, as the code has it. A run is a sequence of parts of the handler threads: a
  registration, a turn of a loop, or one of the three parts of a \<^verbatim>\<open>finally\<close> block. The
  \<^verbatim>\<open>finally\<close> block deletes the entry of the name under \<^verbatim>\<open>clients_lock\<close> and looks at the
  presenter slot afterwards, under \<^verbatim>\<open>presenter_lock\<close>, and the server registers whatever name
  the first message carries. So take a state \<open>sys\<close> reached from the start by a run in which
  every registration uses a name that is a string, is not empty, is not in the registry and
  is not the name of a handler thread that is still alive.
  \<^item> The presenter slot of \<open>sys\<close> is empty, or holds the name of a live handler that is
    registered on its own socket, or that has deleted its entry and has not yet looked at the
    slot.
  \<^item> Forced stop. Let the loop of the handler \<open>c\<close> have ended in \<open>sys\<close>, and let the other
    connections do \<open>es1\<close> before the first part of the \<^verbatim>\<open>finally\<close> block of \<open>c\<close> and \<open>es2\<close> after
    it. Then the entry of the name of \<open>c\<close> is deleted, the slot names \<open>c\<close> exactly if it did in
    \<open>sys\<close>, and nothing written so far is a \<^verbatim>\<open>presentation_stopped\<close> naming \<open>c\<close>. The second part
    of the \<^verbatim>\<open>finally\<close> block of \<open>c\<close> then, if the slot named \<open>c\<close> in \<open>sys\<close>, empties the slot and
    writes \<^verbatim>\<open>presentation_stopped\<close> naming \<open>c\<close> once to each client registered at that moment;
    and if the slot did not name \<open>c\<close>, it leaves the slot and writes nothing.
  \<^item> A \<^verbatim>\<open>stop_presentation\<close> of the presenter, which its handler serves before the loop ends,
    empties the slot and writes \<^verbatim>\<open>presentation_stopped\<close> once to each registered client; the
    slot then does not name the handler when its loop ends, and by the previous item its
    \<^verbatim>\<open>finally\<close> block writes no second \<^verbatim>\<open>presentation_stopped\<close>.
\<close>

theorem presenter_liveness_forced_stop:
  assumes "fresh_run lib es initial"
    and "run lib es initial = Some (sys, out)"
  shows "presenter_held sys
       \<and> (map_of (handlers sys) c = Some h \<longrightarrow> h_phase h = Leaving \<longrightarrow>
          list_all (\<lambda>e. connection e \<noteq> c) es1 \<longrightarrow> list_all (\<lambda>e. connection e \<noteq> c) es2 \<longrightarrow>
          fresh_run lib (es1 @ Finally c # es2) sys \<longrightarrow>
          run lib (es1 @ Finally c # es2) sys = Some (sys1, out1) \<longrightarrow>
            map_of (handlers sys1) c = Some (h\<lparr>h_phase := Deregistered\<rparr>)
          \<and> map_of (clients (srv sys1)) (h_username h) = None
          \<and> (presenter (srv sys1) = Some (h_username h))
              = (presenter (srv sys) = Some (h_username h))
          \<and> (\<forall>x \<in> set out1. snd x \<noteq> JObj [(''type'', JStr ''presentation_stopped''),
                                               (''username'', JStr (h_username h))])
          \<and> step lib (Finally c) sys1 =
              Some (sys1\<lparr>srv := (if presenter (srv sys) = Some (h_username h)
                                  then (srv sys1)\<lparr>presenter := None\<rparr> else srv sys1),
                         handlers := AList.update c (h\<lparr>h_phase := Checked\<rparr>) (handlers sys1)\<rparr>,
                    if presenter (srv sys) = Some (h_username h)
                    then map (\<lambda>(name, info).
                                (tcp_socket info,
                                 JObj [(''type'', JStr ''presentation_stopped''),
                                       (''username'', JStr (h_username h))]))
                           (clients (srv sys1))
                    else []))
       \<and> (presenter s = Some u \<longrightarrow> map_of m ''type'' = Some (JStr ''stop_presentation'') \<longrightarrow>
            process_message lib clock u (JObj m) s =
              Inr (s\<lparr>presenter := None\<rparr>,
                   map (\<lambda>(name, info).
                          (tcp_socket info,
                           JObj [(''type'', JStr ''presentation_stopped''),
                                 (''username'', JStr u)]))
                     (clients s)))"
proof (intro conjI impI)
  from run_consistent [OF consistent_initial assms] have cs: "consistent sys" .
  then show "presenter_held sys" by (rule consistent_presenter_held)
  {
    assume hc: "map_of (handlers sys) c = Some h" and ph: "h_phase h = Leaving"
      and o1: "list_all (\<lambda>e. connection e \<noteq> c) es1"
      and o2: "list_all (\<lambda>e. connection e \<noteq> c) es2"
      and fr: "fresh_run lib (es1 @ Finally c # es2) sys"
      and rn: "run lib (es1 @ Finally c # es2) sys = Some (sys1, out1)"
    let ?u = "h_username h"
    from run_append [OF rn] obtain sysa outa outb where
      ra: "run lib es1 sys = Some (sysa, outa)"
      and rb: "run lib (Finally c # es2) sysa = Some (sys1, outb)"
      and oo: "out1 = outa @ outb" by blast
    from fresh_run_append [OF fr ra] have fa: "fresh_run lib es1 sys"
      and fb: "fresh_run lib (Finally c # es2) sysa" by simp_all
    note A = run_others [OF cs hc o1 fa ra]
    from A have ca: "consistent sysa" and ha: "map_of (handlers sysa) c = Some h" by simp_all
    from consistentD(1) [OF ca ha] have ne: "?u \<noteq> []" .
    let ?sysb = "sysa\<lparr>srv := finally_deregister ?u (srv sysa),
                      handlers := AList.update c (h\<lparr>h_phase := Deregistered\<rparr>) (handlers sysa)\<rparr>"
    have sb: "step lib (Finally c) sysa = Some (?sysb, [])"
      using ha ph ne by simp
    from rb sb obtain out2 where r2: "run lib es2 ?sysb = Some (sys1, out2)"
      and ob: "outb = out2"
      by (auto split: option.splits)
    from fb sb have f2: "fresh_run lib es2 ?sysb" by simp
    from fb have "fresh_identity (Finally c) sysa" by simp
    from step_consistent [OF ca this sb] have cb: "consistent ?sysb" .
    have hb: "map_of (handlers ?sysb) c = Some (h\<lparr>h_phase := Deregistered\<rparr>)"
      by (simp add: update_conv')
    have pb: "presenter (srv ?sysb) = presenter (srv sysa)"
      by (simp add: finally_deregister_def)
    have db: "map_of (clients (srv ?sysb)) ?u = None"
      by (simp add: finally_deregister_def delete_conv')
    note B = run_others [OF cb hb o2 f2 r2]
    from B show h1: "map_of (handlers sys1) c = Some (h\<lparr>h_phase := Deregistered\<rparr>)" by simp
    from B db show "map_of (clients (srv sys1)) ?u = None" by simp
    from A B pb show pe: "(presenter (srv sys1) = Some ?u) = (presenter (srv sys) = Some ?u)"
      by simp
    from A B oo ob show "\<forall>x \<in> set out1. snd x \<noteq> JObj [(''type'', JStr ''presentation_stopped''),
                                               (''username'', JStr ?u)]"
      by (auto simp: presentation_stopped_def)
    show "step lib (Finally c) sys1 =
              Some (sys1\<lparr>srv := (if presenter (srv sys) = Some ?u
                                  then (srv sys1)\<lparr>presenter := None\<rparr> else srv sys1),
                         handlers := AList.update c (h\<lparr>h_phase := Checked\<rparr>) (handlers sys1)\<rparr>,
                    if presenter (srv sys) = Some ?u
                    then map (\<lambda>(name, info).
                                (tcp_socket info,
                                 JObj [(''type'', JStr ''presentation_stopped''),
                                       (''username'', JStr ?u)]))
                           (clients (srv sys1))
                    else [])"
      using h1 pe
      by (simp add: finally_presenter_def Let_def broadcast_message_def case_prod_unfold
          presentation_stopped_def)
  }
  {
    assume "presenter s = Some u" and "map_of m ''type'' = Some (JStr ''stop_presentation'')"
    then show "process_message lib clock u (JObj m) s =
              Inr (s\<lparr>presenter := None\<rparr>,
                   map (\<lambda>(name, info).
                          (tcp_socket info,
                           JObj [(''type'', JStr ''presentation_stopped''),
                                 (''username'', JStr u)]))
                     (clients s))"
      unfolding process_message_JObj Let_def
      by (simp add: on_stop_presentation_def Let_def broadcast_message_def case_prod_unfold
          presentation_stopped_def)
  }
qed


text \<open>
  The claim as worded fails in two ways. In a run with one client: \<^verbatim>\<open>Alice\<close> registers and
  presents, her connection closes, and the first part of the \<^verbatim>\<open>finally\<close> block deletes her
  entry; the slot then holds \<^verbatim>\<open>Alice\<close>, which is not a key of the registry. And with a name used
  twice: two connections register \<^verbatim>\<open>A\<close>, the second one closes and its \<^verbatim>\<open>finally\<close> block deletes
  the entry of \<^verbatim>\<open>A\<close>, and the first one then starts a presentation; the slot holds \<^verbatim>\<open>A\<close>, which
  is not a key of the registry.
\<close>

theorem presenter_liveness_counterexample:
  "fresh_run ascii_lib
     [Accept 1 1 (''10.0.0.1'', 50001)
        (Some (JObj [(''type'', JStr ''register''), (''username'', JStr ''Alice'')])),
      Receive 1 noon (Some (JObj [(''type'', JStr ''start_presentation'')])),
      Receive 1 noon None,
      Finally 1] initial
   \<and> map_option fst (run ascii_lib
     [Accept 1 1 (''10.0.0.1'', 50001)
        (Some (JObj [(''type'', JStr ''register''), (''username'', JStr ''Alice'')])),
      Receive 1 noon (Some (JObj [(''type'', JStr ''start_presentation'')])),
      Receive 1 noon None,
      Finally 1] initial)
     = Some \<lparr>srv = \<lparr>clients = [], presenter = Some ''Alice'', shared_files = []\<rparr>,
             handlers = [(1, \<lparr>h_username = ''Alice'', h_socket = 1, h_phase = Deregistered\<rparr>)]\<rparr>
   \<and> \<not> presenter_live
         \<lparr>srv = \<lparr>clients = [], presenter = Some ''Alice'', shared_files = []\<rparr>,
          handlers = [(1, \<lparr>h_username = ''Alice'', h_socket = 1, h_phase = Deregistered\<rparr>)]\<rparr>
   \<and> map_option fst (run ascii_lib
     [Accept 1 11 (''10.0.0.1'', 50001)
        (Some (JObj [(''type'', JStr ''register''), (''username'', JStr ''A'')])),
      Accept 2 12 (''10.0.0.2'', 50002)
        (Some (JObj [(''type'', JStr ''register''), (''username'', JStr ''A'')])),
      Receive 2 noon None,
      Finally 2, Finally 2, Finally 2,
      Receive 1 noon (Some (JObj [(''type'', JStr ''start_presentation'')]))] initial)
     = Some \<lparr>srv = \<lparr>clients = [], presenter = Some ''A'', shared_files = []\<rparr>,
             handlers = [(1, \<lparr>h_username = ''A'', h_socket = 11, h_phase = Looping\<rparr>)]\<rparr>
   \<and> \<not> presenter_live
         \<lparr>srv = \<lparr>clients = [], presenter = Some ''A'', shared_files = []\<rparr>,
          handlers = [(1, \<lparr>h_username = ''A'', h_socket = 11, h_phase = Looping\<rparr>)]\<rparr>"
  by (simp add: initial_def first_username_def handle_client_register_def
      handle_client_turn_def process_message_def on_start_presentation_def
      finally_deregister_def finally_presenter_def finally_notify_def presenter_live_def
      Let_def AList.delete_eq)


text \<open>
  The theorem on a run where \<^verbatim>\<open>Alice\<close> and \<^verbatim>\<open>bob\<close> register, \<^verbatim>\<open>Alice\<close> presents and her loop
  ends. While \<^verbatim>\<open>Alice\<close> is in her \<^verbatim>\<open>finally\<close> block \<^verbatim>\<open>bob\<close> sends an unknown message and asks to
  present, which is denied. The second part of the block then empties the slot and writes
  \<^verbatim>\<open>presentation_stopped\<close> to \<^verbatim>\<open>bob\<close>. The last conjunct is a \<^verbatim>\<open>stop_presentation\<close> of \<^verbatim>\<open>Alice\<close> as
  presenter.
\<close>

theorem presenter_liveness_forced_stop_witness:
  "fresh_run ascii_lib
     [Accept 1 1 (''10.0.0.1'', 50001)
        (Some (JObj [(''type'', JStr ''register''), (''username'', JStr ''Alice'')])),
      Accept 2 2 (''10.0.0.2'', 50002)
        (Some (JObj [(''type'', JStr ''register''), (''username'', JStr ''bob'')])),
      Receive 1 noon (Some (JObj [(''type'', JStr ''start_presentation'')])),
      Receive 1 noon None] initial
   \<and> presenter_held
       \<lparr>srv = \<lparr>clients =
                 [(''Alice'', \<lparr>tcp_socket = 1, address = (''10.0.0.1'', 50001),
                               video_addr = None, audio_addr = None\<rparr>),
                  (''bob'', \<lparr>tcp_socket = 2, address = (''10.0.0.2'', 50002),
                             video_addr = None, audio_addr = None\<rparr>)],
               presenter = Some ''Alice'', shared_files = []\<rparr>,
        handlers = [(1, \<lparr>h_username = ''Alice'', h_socket = 1, h_phase = Leaving\<rparr>),
                    (2, \<lparr>h_username = ''bob'', h_socket = 2, h_phase = Looping\<rparr>)]\<rparr>
   \<and> step ascii_lib (Finally 1)
       \<lparr>srv = \<lparr>clients =
                 [(''bob'', \<lparr>tcp_socket = 2, address = (''10.0.0.2'', 50002),
                             video_addr = None, audio_addr = None\<rparr>)],
               presenter = Some ''Alice'', shared_files = []\<rparr>,
        handlers = [(1, \<lparr>h_username = ''Alice'', h_socket = 1, h_phase = Deregistered\<rparr>),
                    (2, \<lparr>h_username = ''bob'', h_socket = 2, h_phase = Looping\<rparr>)]\<rparr>
     = Some (\<lparr>srv = \<lparr>clients =
                 [(''bob'', \<lparr>tcp_socket = 2, address = (''10.0.0.2'', 50002),
                             video_addr = None, audio_addr = None\<rparr>)],
               presenter = None, shared_files = []\<rparr>,
              handlers = [(1, \<lparr>h_username = ''Alice'', h_socket = 1, h_phase = Checked\<rparr>),
                          (2, \<lparr>h_username = ''bob'', h_socket = 2, h_phase = Looping\<rparr>)]\<rparr>,
             [(2, JObj [(''type'', JStr ''presentation_stopped''),
                        (''username'', JStr ''Alice'')])])
   \<and> process_message ascii_lib noon ''Alice'' (JObj [(''type'', JStr ''stop_presentation'')])
       (alice_and_bob\<lparr>presenter := Some ''Alice''\<rparr>)
     = Inr (alice_and_bob,
            [(1, JObj [(''type'', JStr ''presentation_stopped''), (''username'', JStr ''Alice'')]),
             (2, JObj [(''type'', JStr ''presentation_stopped''), (''username'', JStr ''Alice'')])])"
proof -
  let ?es = "[Accept 1 1 (''10.0.0.1'', 50001)
        (Some (JObj [(''type'', JStr ''register''), (''username'', JStr ''Alice'')])),
      Accept 2 2 (''10.0.0.2'', 50002)
        (Some (JObj [(''type'', JStr ''register''), (''username'', JStr ''bob'')])),
      Receive 1 noon (Some (JObj [(''type'', JStr ''start_presentation'')])),
      Receive 1 noon None]"
  let ?alice = "\<lparr>tcp_socket = 1, address = (''10.0.0.1'', 50001),
                 video_addr = None, audio_addr = None\<rparr>"
  let ?bob = "\<lparr>tcp_socket = 2, address = (''10.0.0.2'', 50002),
               video_addr = None, audio_addr = None\<rparr>"
  let ?hb = "\<lparr>h_username = ''bob'', h_socket = 2, h_phase = Looping\<rparr>"
  let ?h = "\<lparr>h_username = ''Alice'', h_socket = 1, h_phase = Leaving\<rparr>"
  let ?sys = "\<lparr>srv = \<lparr>clients = [(''Alice'', ?alice), (''bob'', ?bob)],
                       presenter = Some ''Alice'', shared_files = []\<rparr>,
                handlers = [(1, ?h), (2, ?hb)]\<rparr>"
  let ?sys1 = "\<lparr>srv = \<lparr>clients = [(''bob'', ?bob)],
                        presenter = Some ''Alice'', shared_files = []\<rparr>,
                 handlers = [(1, ?h\<lparr>h_phase := Deregistered\<rparr>), (2, ?hb)]\<rparr>"
  let ?es1 = "[Receive 2 noon (Some (JObj [(''type'', JStr ''ping'')]))]"
  let ?es2 = "[Receive 2 noon (Some (JObj [(''type'', JStr ''start_presentation'')]))]"
  have fr: "fresh_run ascii_lib ?es initial"
    by (simp add: initial_def first_username_def handle_client_register_def
        handle_client_turn_def process_message_def on_start_presentation_def Let_def)
  have r0: "map_option fst (run ascii_lib ?es initial) = Some ?sys"
    by (simp add: initial_def first_username_def handle_client_register_def
        handle_client_turn_def process_message_def on_start_presentation_def Let_def)
  then obtain out where run0: "run ascii_lib ?es initial = Some (?sys, out)"
    by (cases "run ascii_lib ?es initial") auto
  have hc: "map_of (handlers ?sys) 1 = Some ?h" by simp
  have ph: "h_phase ?h = Leaving" by simp
  have o1: "list_all (\<lambda>e. connection e \<noteq> 1) ?es1" by simp
  have o2: "list_all (\<lambda>e. connection e \<noteq> 1) ?es2" by simp
  have f1: "fresh_run ascii_lib (?es1 @ Finally 1 # ?es2) ?sys"
    by (simp add: handle_client_turn_def process_message_def on_start_presentation_def
        finally_deregister_def Let_def)
  have r1: "map_option fst (run ascii_lib (?es1 @ Finally 1 # ?es2) ?sys) = Some ?sys1"
    by (simp add: handle_client_turn_def process_message_def on_start_presentation_def
        finally_deregister_def Let_def AList.delete_eq)
  then obtain out1 where run1: "run ascii_lib (?es1 @ Finally 1 # ?es2) ?sys = Some (?sys1, out1)"
    by (cases "run ascii_lib (?es1 @ Finally 1 # ?es2) ?sys") auto
  have p: "presenter (alice_and_bob\<lparr>presenter := Some ''Alice''\<rparr>) = Some ''Alice''" by simp
  have t: "map_of [(''type'', JStr ''stop_presentation'')] ''type''
             = Some (JStr ''stop_presentation'')" by simp
  note w = presenter_liveness_forced_stop [OF fr run0, where c = 1 and h = "?h"
      and ?es1.0 = "?es1" and ?es2.0 = "?es2" and ?sys1.0 = "?sys1" and ?out1.0 = out1
      and s = "alice_and_bob\<lparr>presenter := Some ''Alice''\<rparr>" and u = "''Alice''"
      and m = "[(''type'', JStr ''stop_presentation'')]" and clock = noon]
  from w have held: "presenter_held ?sys" by (rule conjunct1)
  from w [THEN conjunct2, THEN conjunct1] hc ph o1 o2 f1 run1
  have st: "step ascii_lib (Finally 1) ?sys1 =
              Some (?sys1\<lparr>srv := (if presenter (srv ?sys) = Some (h_username ?h)
                                    then (srv ?sys1)\<lparr>presenter := None\<rparr> else srv ?sys1),
                          handlers := AList.update 1 (?h\<lparr>h_phase := Checked\<rparr>) (handlers ?sys1)\<rparr>,
                    if presenter (srv ?sys) = Some (h_username ?h)
                    then map (\<lambda>(name, info).
                                (tcp_socket info,
                                 JObj [(''type'', JStr ''presentation_stopped''),
                                       (''username'', JStr (h_username ?h))]))
                           (clients (srv ?sys1))
                    else [])"
    by blast
  from w [THEN conjunct2, THEN conjunct2] p t
  have sp: "process_message ascii_lib noon ''Alice'' (JObj [(''type'', JStr ''stop_presentation'')])
              (alice_and_bob\<lparr>presenter := Some ''Alice''\<rparr>)
            = Inr (alice_and_bob\<lparr>presenter := Some ''Alice''\<rparr>\<lparr>presenter := None\<rparr>,
                   map (\<lambda>(name, info).
                          (tcp_socket info,
                           JObj [(''type'', JStr ''presentation_stopped''),
                                 (''username'', JStr ''Alice'')]))
                     (clients (alice_and_bob\<lparr>presenter := Some ''Alice''\<rparr>)))"
    by blast
  have e: "alice_and_bob\<lparr>presenter := Some ''Alice''\<rparr>\<lparr>presenter := None\<rparr> = alice_and_bob"
    by (simp add: alice_and_bob_def)
  from sp have sp': "process_message ascii_lib noon ''Alice''
              (JObj [(''type'', JStr ''stop_presentation'')])
              (alice_and_bob\<lparr>presenter := Some ''Alice''\<rparr>)
     = Inr (alice_and_bob,
            [(1, JObj [(''type'', JStr ''presentation_stopped''), (''username'', JStr ''Alice'')]),
             (2, JObj [(''type'', JStr ''presentation_stopped''), (''username'', JStr ''Alice'')])])"
    unfolding e by (simp add: alice_and_bob_def)
  from st have st': "step ascii_lib (Finally 1) ?sys1
     = Some (\<lparr>srv = \<lparr>clients = [(''bob'', ?bob)], presenter = None, shared_files = []\<rparr>,
              handlers = [(1, \<lparr>h_username = ''Alice'', h_socket = 1, h_phase = Checked\<rparr>),
                          (2, ?hb)]\<rparr>,
             [(2, JObj [(''type'', JStr ''presentation_stopped''),
                        (''username'', JStr ''Alice'')])])"
    by simp
  from fr held st' sp' show ?thesis by simp
qed

end
